theory Spec2Isabelle
  imports Complex_Main
begin

section \<open>Data model of the reconciliation engine\<close>

text \<open>
  The engine \<^verbatim>\<open>execute_reconciliation\<close> of \<^verbatim>\<open>deepagent.py\<close> reads two normalised CSV
  files into data frames with the columns \<^verbatim>\<open>std_date\<close>, \<^verbatim>\<open>std_desc\<close>, \<^verbatim>\<open>std_amt\<close>.
  A row is a record of these three columns. The date column holds calendar dates
  (\<^verbatim>\<open>%Y-%m-%d\<close>); \<^verbatim>\<open>pd.to_datetime\<close> turns one into a timestamp at midnight, so the
  \<^verbatim>\<open>.days\<close> of a difference of two of them is the difference of their day numbers, and
  the model keeps the day number. The amount column is \<^verbatim>\<open>float64\<close>: \<open>std_amt\<close> is the
  value of the double that \<^verbatim>\<open>pd.read_csv\<close> parsed, and where the engine computes with
  amounts the result of every operation is rounded to a double (\<open>fl\<close> below). Turning the
  decimal text of the file into a double, and the values \<^verbatim>\<open>nan\<close> and \<^verbatim>\<open>inf\<close>, are outside
  the model.

  \<^verbatim>\<open>pd.read_csv\<close> gives a frame the index \<^verbatim>\<open>0, 1, ..., n - 1\<close>, so a frame is the list
  of its rows and the index of a row is its position.
\<close>

record txn =
  std_date :: int
  std_desc :: string
  std_amt :: real

type_synonym frame = "txn list"

text \<open>The column \<^verbatim>\<open>abs_amt\<close> that the engine adds: \<^verbatim>\<open>df['std_amt'].abs()\<close>.\<close>

definition abs_amt :: "txn \<Rightarrow> real" where
  "abs_amt r = \<bar>std_amt r\<bar>"

text \<open>\<^verbatim>\<open>df.iterrows()\<close>: the pairs of index and row, in row order.\<close>

definition iterrows :: "frame \<Rightarrow> (nat \<times> txn) list" where
  "iterrows df = enumerate 0 df"

datatype quality = Exact_Match | Partial_Match_Fee | Unmatched_Bank | Unmatched_Ledger

text \<open>
  One row of the report: the dictionary appended to \<^verbatim>\<open>matches\<close>. A key that the
  dictionary does not have is \<open>None\<close>.
\<close>

record outcome =
  Match_Quality :: quality
  Bank_Date :: "int option"
  Bank_Desc :: "string option"
  Bank_Amt :: "real option"
  Ledger_Date :: "int option"
  Ledger_Desc :: "string option"
  Ledger_Amt :: "real option"
  Difference :: "real option"

text \<open>
  An entry of \<^verbatim>\<open>matches\<close>, together with the indices \<^verbatim>\<open>idx_l\<close> and \<^verbatim>\<open>idx_b\<close> of the rows
  it was built from. The report holds the field \<open>row\<close> only; the two indices record
  which input rows take part in the outcome.
\<close>

record entry =
  src_l :: "nat option"
  src_b :: "nat option"
  row :: outcome

text \<open>The local state of the engine: \<^verbatim>\<open>matches\<close>, \<^verbatim>\<open>matched_l\<close>, \<^verbatim>\<open>matched_b\<close>.\<close>

record state =
  matches :: "entry list"
  matched_l :: "nat set"
  matched_b :: "nat set"

definition init_state :: state where
  "init_state = \<lparr>matches = [], matched_l = {}, matched_b = {}\<rparr>"

section \<open>Library functions the engine calls\<close>

text \<open>Rounding to the nearest integer, a tie going to the even one.\<close>

definition round_half_even :: "real \<Rightarrow> int" where
  "round_half_even y =
     (let f = \<lfloor>y\<rfloor>; d = y - of_int f
      in if d < 1 / 2 then f
         else if 1 / 2 < d then f + 1
         else if even f then f else f + 1)"

text \<open>
  Arithmetic on \<^verbatim>\<open>float64\<close>: an operation returns the double nearest to the exact result, a
  tie going to the even mantissa. \<open>bexp n x\<close> looks for the binary exponent of a positive
  \<open>x\<close>, the \<open>e\<close> with \<open>2 powi e \<le> x < 2 powi (e + 1)\<close>, in at most \<open>n\<close> halvings or
  doublings. A double has a mantissa of 53 bits, so the doubles of exponent \<open>e\<close> are the
  multiples of \<open>2 powi (e - 52)\<close>; the exponent is at least -1022, and below
  \<open>2 powi (- 1022)\<close> the doubles keep that spacing (the subnormal numbers). \<open>fl x\<close> is the
  double nearest to \<open>x\<close>. Overflow is not modelled: on finite unsigned amounts no operation
  of the engine exceeds the largest double.
\<close>

fun bexp :: "nat \<Rightarrow> real \<Rightarrow> int" where
  "bexp 0 x = 0"
| "bexp (Suc n) x =
     (if 2 \<le> x then bexp n (x / 2) + 1
      else if x < 1 then bexp n (x * 2) - 1
      else 0)"

definition binade :: "real \<Rightarrow> int" where
  "binade x = max (bexp 1100 \<bar>x\<bar>) (- 1022)"

definition fl :: "real \<Rightarrow> real" where
  "fl x =
     (if x = 0 then 0
      else let u = 2 powi (binade x - 52)
           in of_int (round_half_even (x / u)) * u)"

text \<open>
  \<^verbatim>\<open>np.isclose(a, b, atol=...)\<close> is \<^verbatim>\<open>abs(a - b) <= atol + rtol * abs(b)\<close> on doubles, and the
  engine leaves \<^verbatim>\<open>rtol\<close> at its default, the double \<^verbatim>\<open>1e-05\<close>.
\<close>

definition rtol :: real where
  "rtol = fl (1 / 100000)"

definition isclose :: "real \<Rightarrow> real \<Rightarrow> real \<Rightarrow> bool" where
  "isclose a b atol \<longleftrightarrow> \<bar>fl (a - b)\<bar> \<le> fl (atol + fl (rtol * \<bar>b\<bar>))"

text \<open>\<^verbatim>\<open>round(x, 2)\<close>: to the nearest multiple of 0.01, a tie going to the even one.\<close>

definition round2 :: "real \<Rightarrow> real" where
  "round2 x = of_int (round_half_even (x * 100)) / 100"

section \<open>The matching passes\<close>

text \<open>\<^verbatim>\<open>abs((d_b - d_l).days) <= 5\<close>\<close>

definition within_days :: "txn \<Rightarrow> txn \<Rightarrow> bool" where
  "within_days row_l row_b \<longleftrightarrow> \<bar>std_date row_b - std_date row_l\<bar> \<le> 5"

text \<open>\<^verbatim>\<open>candidates = df_b[~df_b.index.isin(matched_b)]\<close>\<close>

definition candidates :: "frame \<Rightarrow> nat set \<Rightarrow> (nat \<times> txn) list" where
  "candidates df_b mb = filter (\<lambda>(idx_b, row_b). idx_b \<notin> mb) (iterrows df_b)"

text \<open>
  \<^verbatim>\<open>exact = candidates[np.isclose(candidates['abs_amt'], row_l['abs_amt'], atol=0.01)]\<close>,
  the literal \<^verbatim>\<open>0.01\<close> being a double.
\<close>

definition exact :: "txn \<Rightarrow> frame \<Rightarrow> nat set \<Rightarrow> (nat \<times> txn) list" where
  "exact row_l df_b mb =
     filter (\<lambda>(idx_b, row_b). isclose (abs_amt row_b) (abs_amt row_l) (fl (1 / 100)))
       (candidates df_b mb)"

definition exact_entry :: "nat \<Rightarrow> txn \<Rightarrow> nat \<Rightarrow> txn \<Rightarrow> entry" where
  "exact_entry idx_l row_l idx_b row_b =
     \<lparr>src_l = Some idx_l, src_b = Some idx_b,
      row = \<lparr>Match_Quality = Exact_Match,
             Bank_Date = Some (std_date row_b), Bank_Desc = Some (std_desc row_b),
             Bank_Amt = Some (std_amt row_b),
             Ledger_Date = Some (std_date row_l), Ledger_Desc = Some (std_desc row_l),
             Ledger_Amt = Some (std_amt row_l),
             Difference = Some 0\<rparr>\<rparr>"

text \<open>
  What both strategies do with a pair they accept: \<^verbatim>\<open>matches.append(...)\<close>,
  \<^verbatim>\<open>matched_l.add(idx_l)\<close>, \<^verbatim>\<open>matched_b.add(idx_b)\<close>.
\<close>

definition bind :: "entry \<Rightarrow> nat \<Rightarrow> nat \<Rightarrow> state \<Rightarrow> state" where
  "bind e idx_l idx_b s =
     s\<lparr>matches := matches s @ [e],
       matched_l := insert idx_l (matched_l s),
       matched_b := insert idx_b (matched_b s)\<rparr>"

text \<open>
  The inner loop of strategy 1, over the rows of \<^verbatim>\<open>exact\<close>: the first row within five
  days is bound and \<^verbatim>\<open>break\<close> ends the loop there.
\<close>

fun exact_inner :: "nat \<Rightarrow> txn \<Rightarrow> (nat \<times> txn) list \<Rightarrow> state \<Rightarrow> state" where
  "exact_inner idx_l row_l [] s = s"
| "exact_inner idx_l row_l ((idx_b, row_b) # rest) s =
     (if within_days row_l row_b
      then bind (exact_entry idx_l row_l idx_b row_b) idx_l idx_b s
      else exact_inner idx_l row_l rest s)"

text \<open>The body of the outer loop of strategy 1 for one ledger row.\<close>

definition exact_step :: "nat \<Rightarrow> txn \<Rightarrow> frame \<Rightarrow> state \<Rightarrow> state" where
  "exact_step idx_l row_l df_b s =
     (if idx_l \<in> matched_l s then s
      else exact_inner idx_l row_l (exact row_l df_b (matched_b s)) s)"

fun exact_pass :: "(nat \<times> txn) list \<Rightarrow> frame \<Rightarrow> state \<Rightarrow> state" where
  "exact_pass [] df_b s = s"
| "exact_pass ((idx_l, row_l) # rest) df_b s =
     exact_pass rest df_b (exact_step idx_l row_l df_b s)"

text \<open>
  Strategy 2. \<^verbatim>\<open>fee_candidates\<close> are the unmatched bank rows whose amount is below the
  ledger amount and above \<^verbatim>\<open>row_l['abs_amt'] * 0.96\<close>, the product of two doubles.
\<close>

definition fee_candidates :: "txn \<Rightarrow> frame \<Rightarrow> nat set \<Rightarrow> (nat \<times> txn) list" where
  "fee_candidates row_l df_b mb =
     filter (\<lambda>(idx_b, row_b). abs_amt row_b < abs_amt row_l
                            \<and> fl (abs_amt row_l * fl (96 / 100)) < abs_amt row_b)
       (candidates df_b mb)"

text \<open>
  The fee dictionary has no \<^verbatim>\<open>Bank_Date\<close> and no \<^verbatim>\<open>Ledger_Date\<close> key. Its difference is
  taken between two doubles of which the smaller is more than half the larger, where the
  subtraction of doubles is exact, so no rounding is written there.
\<close>

definition fee_entry :: "nat \<Rightarrow> txn \<Rightarrow> nat \<Rightarrow> txn \<Rightarrow> entry" where
  "fee_entry idx_l row_l idx_b row_b =
     \<lparr>src_l = Some idx_l, src_b = Some idx_b,
      row = \<lparr>Match_Quality = Partial_Match_Fee,
             Bank_Date = None, Bank_Desc = Some (std_desc row_b),
             Bank_Amt = Some (std_amt row_b),
             Ledger_Date = None, Ledger_Desc = Some (std_desc row_l),
             Ledger_Amt = Some (std_amt row_l),
             Difference = Some (round2 (abs_amt row_b - abs_amt row_l))\<rparr>\<rparr>"

fun fee_inner :: "nat \<Rightarrow> txn \<Rightarrow> (nat \<times> txn) list \<Rightarrow> state \<Rightarrow> state" where
  "fee_inner idx_l row_l [] s = s"
| "fee_inner idx_l row_l ((idx_b, row_b) # rest) s =
     (if within_days row_l row_b
      then bind (fee_entry idx_l row_l idx_b row_b) idx_l idx_b s
      else fee_inner idx_l row_l rest s)"

definition fee_step :: "nat \<Rightarrow> txn \<Rightarrow> frame \<Rightarrow> state \<Rightarrow> state" where
  "fee_step idx_l row_l df_b s =
     (if idx_l \<in> matched_l s then s
      else if 0 < abs_amt row_l
      then fee_inner idx_l row_l (fee_candidates row_l df_b (matched_b s)) s
      else s)"

fun fee_pass :: "(nat \<times> txn) list \<Rightarrow> frame \<Rightarrow> state \<Rightarrow> state" where
  "fee_pass [] df_b s = s"
| "fee_pass ((idx_l, row_l) # rest) df_b s =
     fee_pass rest df_b (fee_step idx_l row_l df_b s)"

section \<open>Reporting the unmatched rows\<close>

definition unmatched_bank_entry :: "nat \<Rightarrow> txn \<Rightarrow> entry" where
  "unmatched_bank_entry idx_b row_b =
     \<lparr>src_l = None, src_b = Some idx_b,
      row = \<lparr>Match_Quality = Unmatched_Bank,
             Bank_Date = Some (std_date row_b), Bank_Desc = Some (std_desc row_b),
             Bank_Amt = Some (std_amt row_b),
             Ledger_Date = None, Ledger_Desc = None, Ledger_Amt = None,
             Difference = None\<rparr>\<rparr>"

definition unmatched_ledger_entry :: "nat \<Rightarrow> txn \<Rightarrow> entry" where
  "unmatched_ledger_entry idx_l row_l =
     \<lparr>src_l = Some idx_l, src_b = None,
      row = \<lparr>Match_Quality = Unmatched_Ledger,
             Bank_Date = None, Bank_Desc = None, Bank_Amt = None,
             Ledger_Date = Some (std_date row_l), Ledger_Desc = Some (std_desc row_l),
             Ledger_Amt = Some (std_amt row_l),
             Difference = None\<rparr>\<rparr>"

fun report_bank :: "(nat \<times> txn) list \<Rightarrow> state \<Rightarrow> state" where
  "report_bank [] s = s"
| "report_bank ((idx_b, row_b) # rest) s =
     (if idx_b \<notin> matched_b s
      then report_bank rest (s\<lparr>matches := matches s @ [unmatched_bank_entry idx_b row_b]\<rparr>)
      else report_bank rest s)"

fun report_ledger :: "(nat \<times> txn) list \<Rightarrow> state \<Rightarrow> state" where
  "report_ledger [] s = s"
| "report_ledger ((idx_l, row_l) # rest) s =
     (if idx_l \<notin> matched_l s
      then report_ledger rest (s\<lparr>matches := matches s @ [unmatched_ledger_entry idx_l row_l]\<rparr>)
      else report_ledger rest s)"

section \<open>The engine\<close>

text \<open>
  The two failures that the engine returns as a message: the \<^verbatim>\<open>except\<close> branch around
  the two \<^verbatim>\<open>pd.read_csv\<close> calls, carrying the text of the exception, and the test
  \<^verbatim>\<open>df_l.empty or df_b.empty\<close>.
\<close>

datatype error = ReadError string | EmptyInputError

text \<open>
  The state after both strategies, the rows of the report (the matches of the two
  strategies, then the unmatched rows), and the whole run. The result of reading a file is
  the exception's text (\<open>Inl\<close>) or the frame (\<open>Inr\<close>); the ledger is read first. A
  successful run returns the rows written to the report, in order.
\<close>

definition run_passes :: "frame \<Rightarrow> frame \<Rightarrow> state" where
  "run_passes df_l df_b =
     fee_pass (iterrows df_l) df_b (exact_pass (iterrows df_l) df_b init_state)"

definition report :: "frame \<Rightarrow> frame \<Rightarrow> entry list" where
  "report df_l df_b =
     matches (report_ledger (iterrows df_l) (report_bank (iterrows df_b) (run_passes df_l df_b)))"

definition execute_reconciliation ::
    "string + frame \<Rightarrow> string + frame \<Rightarrow> error + entry list" where
  "execute_reconciliation norm_ledger norm_bank =
     (case norm_ledger of
        Inl e \<Rightarrow> Inl (ReadError e)
      | Inr df_l \<Rightarrow>
          (case norm_bank of
             Inl e \<Rightarrow> Inl (ReadError e)
           | Inr df_b \<Rightarrow>
               if df_l = [] \<or> df_b = [] then Inl EmptyInputError
               else Inr (report df_l df_b)))"

text \<open>
  A call of the engine next to the file \<^verbatim>\<open>Reconciliation_Report.xlsx\<close> (\<open>None\<close> when
  there is none): a successful run overwrites the file with its rows and returns the
  message with their number (\<open>Inr\<close>), a failed run returns its error message (\<open>Inl\<close>)
  before the file is written.
\<close>

definition engine_call ::
    "entry list option \<Rightarrow> string + frame \<Rightarrow> string + frame
       \<Rightarrow> entry list option \<times> (error + nat)" where
  "engine_call report_file norm_ledger norm_bank =
     (case execute_reconciliation norm_ledger norm_bank of
        Inl e \<Rightarrow> (report_file, Inl e)
      | Inr out \<Rightarrow> (Some out, Inr (length out)))"

section \<open>Which input rows an outcome refers to\<close>

text \<open>The ledger indices, and the bank indices, of a list of entries, in order.\<close>

fun ledger_refs :: "entry list \<Rightarrow> nat list" where
  "ledger_refs [] = []"
| "ledger_refs (e # es) =
     (case src_l e of None \<Rightarrow> ledger_refs es | Some i \<Rightarrow> i # ledger_refs es)"

fun bank_refs :: "entry list \<Rightarrow> nat list" where
  "bank_refs [] = []"
| "bank_refs (e # es) =
     (case src_b e of None \<Rightarrow> bank_refs es | Some i \<Rightarrow> i # bank_refs es)"

text \<open>
  The bookkeeping invariant of the two strategies: the matched sets are the indices
  that the entries refer to, no index is referred to twice, and every index is an
  index of its frame.
\<close>

definition claims_ok :: "nat \<Rightarrow> nat \<Rightarrow> state \<Rightarrow> bool" where
  "claims_ok nl nb s \<longleftrightarrow>
     distinct (ledger_refs (matches s)) \<and> set (ledger_refs (matches s)) = matched_l s
     \<and> matched_l s \<subseteq> {..<nl}
     \<and> distinct (bank_refs (matches s)) \<and> set (bank_refs (matches s)) = matched_b s
     \<and> matched_b s \<subseteq> {..<nb}"

text \<open>
  What the two strategies may append: an entry built from a ledger row and a bank row
  of the frames, at most five days apart, that pass the amount test of strategy 1 or
  the one of strategy 2.
\<close>

definition matched_entry :: "frame \<Rightarrow> frame \<Rightarrow> entry \<Rightarrow> bool" where
  "matched_entry df_l df_b e \<longleftrightarrow>
     (\<exists>il ib. il < length df_l \<and> ib < length df_b
        \<and> within_days (df_l ! il) (df_b ! ib)
        \<and> (e = exact_entry il (df_l ! il) ib (df_b ! ib)
               \<and> isclose (abs_amt (df_b ! ib)) (abs_amt (df_l ! il)) (fl (1 / 100))
           \<or> e = fee_entry il (df_l ! il) ib (df_b ! ib)
               \<and> 0 < abs_amt (df_l ! il)
               \<and> abs_amt (df_b ! ib) < abs_amt (df_l ! il)
               \<and> fl (abs_amt (df_l ! il) * fl (96 / 100)) < abs_amt (df_b ! ib)))"

text \<open>
  When a bank row is a candidate of a ledger row: the row is in the frame that the inner
  loop of the strategy runs over, \<^verbatim>\<open>exact\<close> or \<^verbatim>\<open>fee_candidates\<close>, and it passes the test
  of the dates there.
\<close>

definition exact_candidate :: "txn \<Rightarrow> frame \<Rightarrow> nat set \<Rightarrow> nat \<Rightarrow> bool" where
  "exact_candidate row_l df_b mb idx_b \<longleftrightarrow>
     (idx_b, df_b ! idx_b) \<in> set (exact row_l df_b mb) \<and> within_days row_l (df_b ! idx_b)"

definition fee_candidate :: "txn \<Rightarrow> frame \<Rightarrow> nat set \<Rightarrow> nat \<Rightarrow> bool" where
  "fee_candidate row_l df_b mb idx_b \<longleftrightarrow>
     (idx_b, df_b ! idx_b) \<in> set (fee_candidates row_l df_b mb)
     \<and> within_days row_l (df_b ! idx_b)"

section \<open>Sample frames\<close>

text \<open>
  A ledger of a gross sale and an outstanding cheque, and a bank statement of an unrecorded
  subscription and the net payout of the sale, after the scenarios of \<^verbatim>\<open>dummy_data.py\<close>.
\<close>

definition ledger_ex :: frame where
  "ledger_ex = [\<lparr>std_date = 10, std_desc = ''Client Invoice #1001 (Stripe)'', std_amt = 1250\<rparr>,
                \<lparr>std_date = 28, std_desc = ''Payment to Contractor (Check #404)'', std_amt = 1500\<rparr>]"

definition bank_ex :: frame where
  "bank_ex = [\<lparr>std_date = 20, std_desc = ''MIDJOURNEY SUBSCRIP CA'', std_amt = - 30\<rparr>,
              \<lparr>std_date = 12, std_desc = ''STRIPE PAYOUT TRANSFER 8823'', std_amt = 121345 / 100\<rparr>]"

section \<open>Rounding to a double\<close>

lemma round_half_even_cases:
  "round_half_even y = \<lfloor>y\<rfloor> \<or> round_half_even y = \<lfloor>y\<rfloor> + 1"
  by (simp add: round_half_even_def Let_def)

lemma round_half_even_le: "of_int (round_half_even y) \<le> y + 1 / 2"
  unfolding round_half_even_def Let_def by (auto; linarith)

lemma round_half_even_ge: "y - 1 / 2 \<le> of_int (round_half_even y)"
  unfolding round_half_even_def Let_def by (auto; linarith)

lemma round_half_even_of_int: "round_half_even (of_int n) = n"
  by (simp add: round_half_even_def)

lemma round_half_even_mono:
  assumes "x \<le> y"
  shows "round_half_even x \<le> round_half_even y"
proof (cases "\<lfloor>x\<rfloor> = \<lfloor>y\<rfloor>")
  case True
  with assms show ?thesis
    unfolding round_half_even_def Let_def by (auto; linarith)
next
  case False
  with assms have "\<lfloor>x\<rfloor> < \<lfloor>y\<rfloor>"
    using floor_mono [of x y] by linarith
  moreover have "round_half_even x \<le> \<lfloor>x\<rfloor> + 1"
    using round_half_even_cases [of x] by linarith
  moreover have "\<lfloor>y\<rfloor> \<le> round_half_even y"
    using round_half_even_cases [of y] by linarith
  ultimately show ?thesis by linarith
qed

lemma round_half_even_minus: "round_half_even (- y) = - round_half_even y"
proof (cases "y = of_int \<lfloor>y\<rfloor>")
  case True
  then obtain n where "y = of_int n" ..
  then have "- y = of_int (- n)" by simp
  then show ?thesis
    using \<open>y = of_int n\<close> by (simp only: round_half_even_of_int)
next
  case False
  then have lt: "of_int \<lfloor>y\<rfloor> < y" using of_int_floor_le [of y] by linarith
  have ub: "y < of_int \<lfloor>y\<rfloor> + 1" by linarith
  have "\<lfloor>- y\<rfloor> = - \<lfloor>y\<rfloor> - 1"
  proof (rule floor_unique)
    have "(of_int (- \<lfloor>y\<rfloor> - 1)::real) = - of_int \<lfloor>y\<rfloor> - 1" by simp
    then show "of_int (- \<lfloor>y\<rfloor> - 1) \<le> - y" using ub by linarith
    have "(of_int (- \<lfloor>y\<rfloor> - 1)::real) = - of_int \<lfloor>y\<rfloor> - 1" by simp
    then show "- y < of_int (- \<lfloor>y\<rfloor> - 1) + 1" using lt by linarith
  qed
  then show ?thesis
    unfolding round_half_even_def Let_def using lt by (auto; linarith?)
qed

lemma bexp_range: "- int n \<le> bexp n x \<and> bexp n x \<le> int n"
proof (induction n arbitrary: x)
  case 0 show ?case by simp
next
  case (Suc n)
  show ?case using Suc [of "x / 2"] Suc [of "x * 2"] by auto
qed

lemma bexp_lower: "0 < x \<Longrightarrow> - int n < bexp n x \<Longrightarrow> 2 powi (bexp n x) \<le> x"
proof (induction n arbitrary: x)
  case 0 then show ?case by simp
next
  case (Suc n)
  show ?case
  proof (cases "2 \<le> x")
    case True
    then have e: "bexp (Suc n) x = bexp n (x / 2) + 1" by simp
    show ?thesis
    proof (cases "- int n < bexp n (x / 2)")
      case True
      then have "2 powi (bexp n (x / 2)) \<le> x / 2"
        using Suc.IH [of "x / 2"] Suc.prems by simp
      then show ?thesis unfolding e by (simp add: power_int_add)
    next
      case False
      then have "bexp n (x / 2) = - int n" using bexp_range [of n "x / 2"] by linarith
      then have "bexp (Suc n) x \<le> 1" unfolding e by simp
      then have "(2::real) powi (bexp (Suc n) x) \<le> 2 powi 1"
        by (intro power_int_increasing) simp_all
      with \<open>2 \<le> x\<close> show ?thesis by simp
    qed
  next
    case False
    show ?thesis
    proof (cases "x < 1")
      case True
      then have e: "bexp (Suc n) x = bexp n (x * 2) - 1" using False by simp
      with Suc.prems have "- int n < bexp n (x * 2)" by simp
      then have "2 powi (bexp n (x * 2)) \<le> x * 2"
        using Suc.IH [of "x * 2"] Suc.prems by simp
      then show ?thesis unfolding e by (simp add: power_int_diff)
    next
      case False
      with \<open>\<not> 2 \<le> x\<close> show ?thesis by simp
    qed
  qed
qed

lemma bexp_upper: "0 < x \<Longrightarrow> bexp n x < int n \<Longrightarrow> x < 2 powi (bexp n x + 1)"
proof (induction n arbitrary: x)
  case 0 then show ?case by simp
next
  case (Suc n)
  show ?case
  proof (cases "2 \<le> x")
    case True
    then have e: "bexp (Suc n) x = bexp n (x / 2) + 1" by simp
    with Suc.prems have "bexp n (x / 2) < int n" by simp
    then have "x / 2 < 2 powi (bexp n (x / 2) + 1)"
      using Suc.IH [of "x / 2"] Suc.prems by simp
    then show ?thesis unfolding e by (simp add: power_int_add)
  next
    case False
    show ?thesis
    proof (cases "x < 1")
      case True
      then have e: "bexp (Suc n) x = bexp n (x * 2) - 1" using False by simp
      show ?thesis
      proof (cases "bexp n (x * 2) < int n")
        case True
        then have "x * 2 < 2 powi (bexp n (x * 2) + 1)"
          using Suc.IH [of "x * 2"] Suc.prems by simp
        then show ?thesis unfolding e by (simp add: power_int_add)
      next
        case False
        then have "bexp n (x * 2) = int n" using bexp_range [of n "x * 2"] by linarith
        then have "0 \<le> bexp (Suc n) x + 1" unfolding e by simp
        then have "(2::real) powi 0 \<le> 2 powi (bexp (Suc n) x + 1)"
          by (intro power_int_increasing) simp_all
        with \<open>x < 1\<close> show ?thesis by simp
      qed
    next
      case False
      with \<open>\<not> 2 \<le> x\<close> show ?thesis by simp
    qed
  qed
qed

lemma fl_binade: "fl x = (if x = 0 then 0 else of_int (round_half_even (x / 2 powi (binade x - 52))) * 2 powi (binade x - 52))"
  by (simp add: fl_def Let_def)

lemma fl_0: "fl 0 = 0"
  by (simp add: fl_def)

lemma fl_minus: "fl (- x) = - fl x"
  by (simp add: fl_binade binade_def round_half_even_minus)

lemma round_half_even_nonneg: "0 \<le> y \<Longrightarrow> 0 \<le> round_half_even y"
  using round_half_even_mono [of 0 y] round_half_even_of_int [of 0] by simp

lemma fl_nonneg: "0 \<le> x \<Longrightarrow> 0 \<le> fl x"
  by (simp add: fl_binade round_half_even_nonneg)

lemma abs_fl: "\<bar>fl x\<bar> = fl \<bar>x\<bar>"
proof (cases "0 \<le> x")
  case True then show ?thesis using fl_nonneg [of x] by simp
next
  case False
  then have "0 \<le> fl (- x)" by (intro fl_nonneg) simp
  with False show ?thesis by (simp add: fl_minus)
qed

lemma binade_mono:
  assumes "0 < x" "x \<le> y"
  shows "binade x \<le> binade y"
proof (rule ccontr)
  assume "\<not> binade x \<le> binade y"
  then have lt: "binade y < binade x" by simp
  have ex: "binade x = bexp 1100 x" "- 1022 < bexp 1100 x"
    using lt assms unfolding binade_def by (auto simp: max_def split: if_splits)
  have ey: "bexp 1100 y < bexp 1100 x"
    using lt assms ex unfolding binade_def by (auto simp: max_def split: if_splits)
  have "bexp 1100 y < int 1100" using ey bexp_range [of 1100 x] by linarith
  then have "y < 2 powi (bexp 1100 y + 1)" using bexp_upper [of y 1100] assms by simp
  also have "\<dots> \<le> 2 powi (bexp 1100 x)"
    using ey by (intro power_int_increasing) simp_all
  also have "\<dots> \<le> x" using bexp_lower [of x 1100] assms ex by simp
  finally show False using assms by simp
qed

lemma binade_lower: "0 < x \<Longrightarrow> - 1022 < binade x \<Longrightarrow> 2 powi (binade x) \<le> x"
  using bexp_lower [of x 1100] unfolding binade_def by (simp split: if_splits add: max_def)

lemma binade_upper: "0 < x \<Longrightarrow> binade x < 1100 \<Longrightarrow> x < 2 powi (binade x + 1)"
proof -
  assume x: "0 < x" and b: "binade x < 1100"
  have "bexp 1100 x \<le> binade x" unfolding binade_def using x by simp
  with b have "bexp 1100 x < int 1100" by simp
  then have "x < 2 powi (bexp 1100 x + 1)" using bexp_upper [of x 1100] x by simp
  also have "\<dots> \<le> 2 powi (binade x + 1)"
    using \<open>bexp 1100 x \<le> binade x\<close> by (intro power_int_increasing) simp_all
  finally show ?thesis .
qed

lemma pow_split: "(2::real) powi k * 2 powi (e - k) = 2 powi e"
  using power_int_add [of "2::real" k "e - k"] by simp

lemma fl_le_pow:
  assumes "0 < x" "binade x < 1100"
  shows "fl x \<le> 2 powi (binade x + 1)"
proof -
  let ?u = "(2::real) powi (binade x + 1 - 53)"
  have u: "0 < ?u" by simp
  have "x / ?u \<le> 2 powi (binade x + 1) / ?u"
    using binade_upper [OF assms] u by (simp add: divide_right_mono)
  also have "2 powi (binade x + 1) / ?u = (2::real) powi 53"
    using pow_split [of 53 "binade x + 1"] u by (simp add: field_simps)
  also have "\<dots> = of_int (2 ^ 53)" by simp
  finally have "round_half_even (x / ?u) \<le> 2 ^ 53"
    using round_half_even_mono [of "x / ?u" "of_int (2 ^ 53)"] by (simp only: round_half_even_of_int)
  then have "(of_int (round_half_even (x / ?u))::real) \<le> of_int (2 ^ 53)"
    by (simp only: of_int_le_iff)
  then have "of_int (round_half_even (x / ?u)) * ?u \<le> of_int (2 ^ 53) * ?u"
    by (rule mult_right_mono) (use u in simp)
  also have "of_int (2 ^ 53) * ?u = 2 powi 53 * ?u" by simp
  also have "\<dots> = 2 powi (binade x + 1)" by (rule pow_split)
  finally have "of_int (round_half_even (x / ?u)) * ?u \<le> 2 powi (binade x + 1)" .
  moreover have "binade x + 1 - 53 = binade x - 52" by simp
  ultimately show ?thesis using assms by (simp add: fl_binade)
qed

lemma fl_ge_pow:
  assumes "0 < x" "- 1022 < binade x"
  shows "2 powi (binade x) \<le> fl x"
proof -
  let ?u = "(2::real) powi (binade x - 52)"
  have u: "0 < ?u" by simp
  have "2 powi (binade x) / ?u \<le> x / ?u"
    using binade_lower [OF assms] u by (simp add: divide_right_mono)
  moreover have "2 powi (binade x) / ?u = (2::real) powi 52"
    using pow_split [of 52 "binade x"] u by (simp add: field_simps)
  moreover have "(2::real) powi 52 = of_int (2 ^ 52)" by simp
  ultimately have "2 ^ 52 \<le> round_half_even (x / ?u)"
    using round_half_even_mono [of "of_int (2 ^ 52)" "x / ?u"] by (simp only: round_half_even_of_int)
  then have le: "(of_int (2 ^ 52)::real) \<le> of_int (round_half_even (x / ?u))"
    by (simp only: of_int_le_iff)
  have "2 powi (binade x) = 2 powi 52 * ?u" by (rule pow_split [symmetric])
  also have "\<dots> = of_int (2 ^ 52) * ?u" by simp
  also have "\<dots> \<le> of_int (round_half_even (x / ?u)) * ?u"
    using le by (rule mult_right_mono) (use u in simp)
  finally have "2 powi (binade x) \<le> of_int (round_half_even (x / ?u)) * ?u" .
  then show ?thesis using assms by (simp add: fl_binade)
qed

lemma fl_mono:
  assumes "0 \<le> x" "x \<le> y"
  shows "fl x \<le> fl y"
proof (cases "x = 0")
  case True
  then show ?thesis using fl_nonneg [of y] assms by (simp add: fl_0)
next
  case False
  then have x: "0 < x" and y: "0 < y" using assms by simp_all
  show ?thesis
  proof (cases "binade x = binade y")
    case True
    let ?u = "(2::real) powi (binade y - 52)"
    have u: "0 < ?u" by simp
    have "x / ?u \<le> y / ?u" using assms u by (simp add: divide_right_mono)
    then have "round_half_even (x / ?u) \<le> round_half_even (y / ?u)" by (rule round_half_even_mono)
    then have "of_int (round_half_even (x / ?u)) * ?u \<le> of_int (round_half_even (y / ?u)) * ?u"
      using u by (intro mult_right_mono) simp_all
    then show ?thesis using x y True by (simp add: fl_binade)
  next
    case False
    then have lt: "binade x < binade y" using binade_mono [OF x assms(2)] by simp
    have "binade y \<le> 1100" using bexp_range [of 1100 "\<bar>y\<bar>"] unfolding binade_def by simp
    then have "binade x < 1100" using lt by simp
    then have "fl x \<le> 2 powi (binade x + 1)" using fl_le_pow [OF x] by simp
    also have "\<dots> \<le> 2 powi (binade y)"
      using lt by (intro power_int_increasing) simp_all
    also have "\<dots> \<le> fl y"
    proof (rule fl_ge_pow [OF y])
      have "- 1022 \<le> binade x" unfolding binade_def by simp
      then show "- 1022 < binade y" using lt by simp
    qed
    finally show ?thesis .
  qed
qed

lemma fl_error:
  assumes "2 powi (- 1022) \<le> x"
  shows "\<bar>fl x - x\<bar> \<le> x / 2 ^ 53"
proof -
  have x: "0 < x"
    using assms zero_less_power_int [of "2::real" "- 1022"] by linarith
  let ?u = "(2::real) powi (binade x - 52)"
  have u: "0 < ?u" by simp
  have lo: "2 powi (binade x) \<le> x"
  proof (cases "- 1022 < binade x")
    case True then show ?thesis by (rule binade_lower [OF x])
  next
    case False
    moreover have "- 1022 \<le> binade x" unfolding binade_def by simp
    ultimately have "binade x = - 1022" by simp
    then show ?thesis using assms by simp
  qed
  have "\<bar>of_int (round_half_even (x / ?u)) - x / ?u\<bar> \<le> 1 / 2"
    using round_half_even_le [of "x / ?u"] round_half_even_ge [of "x / ?u"] by linarith
  then have "\<bar>of_int (round_half_even (x / ?u)) - x / ?u\<bar> * ?u \<le> 1 / 2 * ?u"
    using u by (intro mult_right_mono) simp_all
  moreover have "\<bar>of_int (round_half_even (x / ?u)) - x / ?u\<bar> * ?u
      = \<bar>of_int (round_half_even (x / ?u)) * ?u - x\<bar>"
  proof -
    have "\<bar>of_int (round_half_even (x / ?u)) * ?u - x\<bar>
        = \<bar>(of_int (round_half_even (x / ?u)) - x / ?u) * ?u\<bar>"
      using u by (simp add: left_diff_distrib)
    also have "\<dots> = \<bar>of_int (round_half_even (x / ?u)) - x / ?u\<bar> * ?u"
      using u by (simp add: abs_mult)
    finally show ?thesis by simp
  qed
  ultimately have "\<bar>fl x - x\<bar> \<le> ?u / 2" using x by (simp add: fl_binade)
  also have "?u / 2 = 2 powi (binade x) / 2 ^ 53"
    by (simp add: power_int_diff)
  also have "\<dots> \<le> x / 2 ^ 53" using lo by (simp add: divide_right_mono)
  finally show ?thesis .
qed

text \<open>Rules that compute \<open>fl\<close> at a numeral.\<close>

lemma bexp_numeral:
  "bexp (numeral k) x =
     (if 2 \<le> x then bexp (pred_numeral k) (x / 2) + 1
      else if x < 1 then bexp (pred_numeral k) (x * 2) - 1
      else 0)"
  by (simp add: numeral_eq_Suc)

lemmas fl_eval = fl_def binade_def bexp_numeral round_half_even_def Let_def power_int_minus

section \<open>The loops in closed form\<close>

lemma exact_inner_find:
  "exact_inner idx_l row_l rows s =
     (case find (\<lambda>(idx_b, row_b). within_days row_l row_b) rows of
        None \<Rightarrow> s
      | Some (idx_b, row_b) \<Rightarrow> bind (exact_entry idx_l row_l idx_b row_b) idx_l idx_b s)"
  by (induction rows) auto

lemma fee_inner_find:
  "fee_inner idx_l row_l rows s =
     (case find (\<lambda>(idx_b, row_b). within_days row_l row_b) rows of
        None \<Rightarrow> s
      | Some (idx_b, row_b) \<Rightarrow> bind (fee_entry idx_l row_l idx_b row_b) idx_l idx_b s)"
  by (induction rows) auto

lemma find_filter: "find P (filter Q xs) = find (\<lambda>x. Q x \<and> P x) xs"
  by (induction xs) auto

lemma find_iterrows_first:
  assumes "i < length df" and "P (i, df ! i)" and "\<forall>j<i. \<not> P (j, df ! j)"
  shows "find P (iterrows df) = Some (i, df ! i)"
  unfolding find_Some_iff iterrows_def
  using assms by (intro exI[of _ i]) (simp add: nth_enumerate_eq)

lemma find_iterrows_Some:
  assumes "find P (iterrows df) = Some (i, r)"
  shows "i < length df \<and> r = df ! i \<and> P (i, r)"
  using assms unfolding find_Some_iff iterrows_def
  by (auto simp: nth_enumerate_eq)

lemma report_bank_eq:
  "report_bank rows s =
     s\<lparr>matches := matches s @ map (\<lambda>(i, r). unmatched_bank_entry i r)
                               (filter (\<lambda>(i, r). i \<notin> matched_b s) rows)\<rparr>"
  by (induction rows arbitrary: s) auto

lemma report_ledger_eq:
  "report_ledger rows s =
     s\<lparr>matches := matches s @ map (\<lambda>(i, r). unmatched_ledger_entry i r)
                               (filter (\<lambda>(i, r). i \<notin> matched_l s) rows)\<rparr>"
  by (induction rows arbitrary: s) auto

section \<open>The bookkeeping of the claimed rows\<close>

lemma ledger_refs_append: "ledger_refs (xs @ ys) = ledger_refs xs @ ledger_refs ys"
  by (induction xs) (auto split: option.splits)

lemma bank_refs_append: "bank_refs (xs @ ys) = bank_refs xs @ bank_refs ys"
  by (induction xs) (auto split: option.splits)

lemma claims_ok_init: "claims_ok nl nb init_state"
  by (simp add: claims_ok_def init_state_def)

lemma claims_ok_bind:
  assumes "claims_ok nl nb s" and "src_l e = Some il" and "src_b e = Some ib"
    and "il \<notin> matched_l s" and "ib \<notin> matched_b s" and "il < nl" and "ib < nb"
  shows "claims_ok nl nb (bind e il ib s)"
  using assms by (auto simp: claims_ok_def bind_def ledger_refs_append bank_refs_append)

lemma src_exact_entry [simp]:
  "src_l (exact_entry il rl ib rb) = Some il" "src_b (exact_entry il rl ib rb) = Some ib"
  by (simp_all add: exact_entry_def)

lemma src_fee_entry [simp]:
  "src_l (fee_entry il rl ib rb) = Some il" "src_b (fee_entry il rl ib rb) = Some ib"
  by (simp_all add: fee_entry_def)

lemma exact_step_find:
  "exact_step idx_l row_l df_b s =
     (if idx_l \<in> matched_l s then s
      else case find (\<lambda>(idx_b, row_b). idx_b \<notin> matched_b s
                        \<and> isclose (abs_amt row_b) (abs_amt row_l) (fl (1 / 100))
                        \<and> within_days row_l row_b) (iterrows df_b) of
             None \<Rightarrow> s
           | Some (idx_b, row_b) \<Rightarrow> bind (exact_entry idx_l row_l idx_b row_b) idx_l idx_b s)"
  by (simp add: exact_step_def exact_inner_find exact_def candidates_def find_filter
        case_prod_unfold conj_ac)

lemma fee_step_find:
  "fee_step idx_l row_l df_b s =
     (if idx_l \<in> matched_l s \<or> \<not> 0 < abs_amt row_l then s
      else case find (\<lambda>(idx_b, row_b). idx_b \<notin> matched_b s
                        \<and> abs_amt row_b < abs_amt row_l
                        \<and> fl (abs_amt row_l * fl (96 / 100)) < abs_amt row_b
                        \<and> within_days row_l row_b) (iterrows df_b) of
             None \<Rightarrow> s
           | Some (idx_b, row_b) \<Rightarrow> bind (fee_entry idx_l row_l idx_b row_b) idx_l idx_b s)"
  by (simp add: fee_step_def fee_inner_find fee_candidates_def candidates_def find_filter
        case_prod_unfold conj_ac)

lemma claims_ok_exact_step:
  assumes "claims_ok nl (length df_b) s" and "il < nl"
  shows "claims_ok nl (length df_b) (exact_step il rl df_b s)"
  using assms
  by (auto simp: exact_step_find split: option.splits dest!: find_iterrows_Some
        intro!: claims_ok_bind)

lemma claims_ok_fee_step:
  assumes "claims_ok nl (length df_b) s" and "il < nl"
  shows "claims_ok nl (length df_b) (fee_step il rl df_b s)"
  using assms
  by (auto simp: fee_step_find split: option.splits dest!: find_iterrows_Some
        intro!: claims_ok_bind)

lemma claims_ok_exact_pass:
  assumes "claims_ok nl (length df_b) s" and "\<forall>(il, rl) \<in> set rows. il < nl"
  shows "claims_ok nl (length df_b) (exact_pass rows df_b s)"
  using assms
  by (induction rows arbitrary: s) (auto simp: claims_ok_exact_step)

lemma claims_ok_fee_pass:
  assumes "claims_ok nl (length df_b) s" and "\<forall>(il, rl) \<in> set rows. il < nl"
  shows "claims_ok nl (length df_b) (fee_pass rows df_b s)"
  using assms
  by (induction rows arbitrary: s) (auto simp: claims_ok_fee_step)

lemma iterrows_bound: "\<forall>(i, r) \<in> set (iterrows df). i < length df"
  by (auto simp: iterrows_def in_set_enumerate_eq)

lemma claims_ok_run_passes: "claims_ok (length df_l) (length df_b) (run_passes df_l df_b)"
  unfolding run_passes_def
  by (intro claims_ok_fee_pass claims_ok_exact_pass claims_ok_init iterrows_bound)

lemma count_refs_l:
  "length (filter (\<lambda>e. src_l e = Some i) es) = count_list (ledger_refs es) i"
  by (induction es) (auto split: option.splits)

lemma count_refs_b:
  "length (filter (\<lambda>e. src_b e = Some i) es) = count_list (bank_refs es) i"
  by (induction es) (auto split: option.splits)

lemma distinct_count_one: "distinct xs \<Longrightarrow> x \<in> set xs \<Longrightarrow> count_list xs x = 1"
  by (induction xs) (auto simp: count_list_0_iff)

lemma refs_unmatched_bank:
  "ledger_refs (map (\<lambda>(i, r). unmatched_bank_entry i r) rows) = []"
  "bank_refs (map (\<lambda>(i, r). unmatched_bank_entry i r) rows) = map fst rows"
  by (induction rows) (auto simp: unmatched_bank_entry_def)

lemma refs_unmatched_ledger:
  "ledger_refs (map (\<lambda>(i, r). unmatched_ledger_entry i r) rows) = map fst rows"
  "bank_refs (map (\<lambda>(i, r). unmatched_ledger_entry i r) rows) = []"
  by (induction rows) (auto simp: unmatched_ledger_entry_def)

lemma map_fst_unclaimed:
  "map fst (filter (\<lambda>(i, r). i \<notin> m) (iterrows df)) = filter (\<lambda>i. i \<notin> m) [0..<length df]"
proof -
  have "map fst (filter (\<lambda>(i, r). i \<notin> m) (iterrows df))
          = map fst (filter ((\<lambda>i. i \<notin> m) \<circ> fst) (iterrows df))"
    by (simp add: comp_def case_prod_unfold)
  also have "\<dots> = filter (\<lambda>i. i \<notin> m) (map fst (iterrows df))"
    by (simp only: filter_map)
  finally show ?thesis
    by (simp add: iterrows_def)
qed

lemma report_eq:
  "report df_l df_b =
     matches (run_passes df_l df_b)
     @ map (\<lambda>(i, r). unmatched_bank_entry i r)
         (filter (\<lambda>(i, r). i \<notin> matched_b (run_passes df_l df_b)) (iterrows df_b))
     @ map (\<lambda>(i, r). unmatched_ledger_entry i r)
         (filter (\<lambda>(i, r). i \<notin> matched_l (run_passes df_l df_b)) (iterrows df_l))"
  by (simp add: report_def report_bank_eq report_ledger_eq)

lemma ledger_refs_report:
  "ledger_refs (report df_l df_b) =
     ledger_refs (matches (run_passes df_l df_b))
     @ filter (\<lambda>i. i \<notin> matched_l (run_passes df_l df_b)) [0..<length df_l]"
  by (simp add: report_eq ledger_refs_append refs_unmatched_bank refs_unmatched_ledger
        map_fst_unclaimed)

lemma bank_refs_report:
  "bank_refs (report df_l df_b) =
     bank_refs (matches (run_passes df_l df_b))
     @ filter (\<lambda>i. i \<notin> matched_b (run_passes df_l df_b)) [0..<length df_b]"
  by (simp add: report_eq bank_refs_append refs_unmatched_bank refs_unmatched_ledger
        map_fst_unclaimed)

lemma ledger_refs_partition:
  "distinct (ledger_refs (report df_l df_b))
   \<and> set (ledger_refs (report df_l df_b)) = {..<length df_l}"
  using claims_ok_run_passes[of df_l df_b]
  by (auto simp: ledger_refs_report claims_ok_def)

lemma bank_refs_partition:
  "distinct (bank_refs (report df_l df_b))
   \<and> set (bank_refs (report df_l df_b)) = {..<length df_b}"
  using claims_ok_run_passes[of df_l df_b]
  by (auto simp: bank_refs_report claims_ok_def)

lemma execute_Inr:
  "execute_reconciliation norm_ledger norm_bank = Inr out \<longleftrightarrow>
     (\<exists>df_l df_b. norm_ledger = Inr df_l \<and> norm_bank = Inr df_b \<and> df_l \<noteq> [] \<and> df_b \<noteq> []
        \<and> out = report df_l df_b)"
  by (auto simp: execute_reconciliation_def split: sum.splits)

section \<open>The sample run\<close>

lemmas engine_defs =
  execute_reconciliation_def report_def run_passes_def iterrows_def init_state_def
  exact_step_def exact_def candidates_def isclose_def rtol_def abs_amt_def within_days_def
  fee_step_def fee_candidates_def enumerate_eq_zip bind_def fl_eval

lemma report_ex:
  "report ledger_ex bank_ex =
     [fee_entry 0 (ledger_ex ! 0) 1 (bank_ex ! 1),
      unmatched_bank_entry 0 (bank_ex ! 0),
      unmatched_ledger_entry 1 (ledger_ex ! 1)]"
  by (simp add: ledger_ex_def bank_ex_def engine_defs split del: if_split)

lemma execute_ex:
  "execute_reconciliation (Inr ledger_ex) (Inr bank_ex) = Inr (report ledger_ex bank_ex)"
  by (simp add: execute_reconciliation_def ledger_ex_def bank_ex_def)

section \<open>What the strategies append\<close>

lemma matches_bind [simp]: "matches (bind e il ib s) = matches s @ [e]"
  by (simp add: bind_def)

lemma matched_exact_step:
  assumes "\<forall>e \<in> set (matches s). matched_entry df_l df_b e"
    and "il < length df_l" and "rl = df_l ! il"
  shows "\<forall>e \<in> set (matches (exact_step il rl df_b s)). matched_entry df_l df_b e"
  using assms
  by (auto simp: exact_step_find matched_entry_def split: option.splits
        dest!: find_iterrows_Some)

lemma matched_fee_step:
  assumes "\<forall>e \<in> set (matches s). matched_entry df_l df_b e"
    and "il < length df_l" and "rl = df_l ! il"
  shows "\<forall>e \<in> set (matches (fee_step il rl df_b s)). matched_entry df_l df_b e"
  using assms
  by (auto simp: fee_step_find matched_entry_def split: option.splits
        dest!: find_iterrows_Some)

lemma matched_exact_pass:
  assumes "\<forall>e \<in> set (matches s). matched_entry df_l df_b e"
    and "\<forall>(il, rl) \<in> set rows. il < length df_l \<and> rl = df_l ! il"
  shows "\<forall>e \<in> set (matches (exact_pass rows df_b s)). matched_entry df_l df_b e"
  using assms
proof (induction rows arbitrary: s)
  case Nil
  then show ?case by simp
next
  case (Cons p rows)
  obtain il rl where p: "p = (il, rl)" by (cases p)
  with Cons.prems have "\<forall>e \<in> set (matches (exact_step il rl df_b s)). matched_entry df_l df_b e"
    by (intro matched_exact_step) auto
  with Cons.IH Cons.prems(2) p show ?case by simp
qed

lemma matched_fee_pass:
  assumes "\<forall>e \<in> set (matches s). matched_entry df_l df_b e"
    and "\<forall>(il, rl) \<in> set rows. il < length df_l \<and> rl = df_l ! il"
  shows "\<forall>e \<in> set (matches (fee_pass rows df_b s)). matched_entry df_l df_b e"
  using assms
proof (induction rows arbitrary: s)
  case Nil
  then show ?case by simp
next
  case (Cons p rows)
  obtain il rl where p: "p = (il, rl)" by (cases p)
  with Cons.prems have "\<forall>e \<in> set (matches (fee_step il rl df_b s)). matched_entry df_l df_b e"
    by (intro matched_fee_step) auto
  with Cons.IH Cons.prems(2) p show ?case by simp
qed

lemma iterrows_nth: "\<forall>(i, r) \<in> set (iterrows df). i < length df \<and> r = df ! i"
  by (auto simp: iterrows_def in_set_enumerate_eq)

lemma matched_run_passes:
  "\<forall>e \<in> set (matches (run_passes df_l df_b)). matched_entry df_l df_b e"
proof -
  have "\<forall>e \<in> set (matches init_state). matched_entry df_l df_b e"
    by (simp add: init_state_def)
  then have "\<forall>e \<in> set (matches (exact_pass (iterrows df_l) df_b init_state)).
               matched_entry df_l df_b e"
    by (rule matched_exact_pass) (rule iterrows_nth)
  then show ?thesis
    unfolding run_passes_def by (rule matched_fee_pass) (rule iterrows_nth)
qed

lemma iterrows_map: "iterrows df = map (\<lambda>i. (i, df ! i)) [0..<length df]"
  unfolding iterrows_def by (rule nth_equalityI) (simp_all add: nth_enumerate_eq)

lemma unclaimed_rows_map:
  "map (\<lambda>(i, r). f i r) (filter (\<lambda>(i, r). i \<notin> m) (iterrows df))
     = map (\<lambda>i. f i (df ! i)) (filter (\<lambda>i. i \<notin> m) [0..<length df])"
  by (simp add: iterrows_map filter_map comp_def)

lemma ref_in_ledger_refs: "e \<in> set es \<Longrightarrow> src_l e = Some i \<Longrightarrow> i \<in> set (ledger_refs es)"
  by (induction es) (auto split: option.splits)

lemma ref_in_bank_refs: "e \<in> set es \<Longrightarrow> src_b e = Some i \<Longrightarrow> i \<in> set (bank_refs es)"
  by (induction es) (auto split: option.splits)

section \<open>Rounding to two decimals\<close>

lemma round_half_even_nonpos: "y \<le> 0 \<Longrightarrow> round_half_even y \<le> 0"
proof -
  assume y: "y \<le> 0"
  have f: "of_int \<lfloor>y\<rfloor> \<le> y" by simp
  have "\<lfloor>y\<rfloor> \<le> 0" using y by (simp add: floor_le_zero)
  moreover have "0 < y - of_int \<lfloor>y\<rfloor> \<Longrightarrow> \<lfloor>y\<rfloor> + 1 \<le> 0"
  proof -
    assume "0 < y - of_int \<lfloor>y\<rfloor>"
    then have "of_int \<lfloor>y\<rfloor> < (0::real)" using y by linarith
    then have "\<lfloor>y\<rfloor> < 0" by (simp only: of_int_less_0_iff)
    then show ?thesis by linarith
  qed
  ultimately show ?thesis
    by (auto simp: round_half_even_def Let_def)
qed

lemma round2_nonpos: "x \<le> 0 \<Longrightarrow> round2 x \<le> 0"
  using round_half_even_nonpos[of "x * 100"]
  by (simp add: round2_def mult_le_0_iff divide_le_0_iff)

section \<open>The report, row by row\<close>

lemma quality_entry [simp]:
  "Match_Quality (row (exact_entry il rl ib rb)) = Exact_Match"
  "Match_Quality (row (fee_entry il rl ib rb)) = Partial_Match_Fee"
  "Match_Quality (row (unmatched_bank_entry ib rb)) = Unmatched_Bank"
  "Match_Quality (row (unmatched_ledger_entry il rl)) = Unmatched_Ledger"
  by (simp_all add: exact_entry_def fee_entry_def unmatched_bank_entry_def
        unmatched_ledger_entry_def)

lemma report_by_index:
  "report df_l df_b =
     matches (run_passes df_l df_b)
     @ map (\<lambda>i. unmatched_bank_entry i (df_b ! i))
         (filter (\<lambda>i. i \<notin> matched_b (run_passes df_l df_b)) [0..<length df_b])
     @ map (\<lambda>i. unmatched_ledger_entry i (df_l ! i))
         (filter (\<lambda>i. i \<notin> matched_l (run_passes df_l df_b)) [0..<length df_l])"
  by (simp only: report_eq unclaimed_rows_map)



section \<open>Candidates and the first fit\<close>

lemma in_iterrows: "(i, r) \<in> set (iterrows df) \<longleftrightarrow> i < length df \<and> r = df ! i"
  by (auto simp: iterrows_def in_set_enumerate_eq)

lemma find_iterrows_None_iff:
  "find P (iterrows df) = None \<longleftrightarrow> (\<forall>i<length df. \<not> P (i, df ! i))"
  by (auto simp: find_None_iff in_iterrows)

lemma exact_candidate_eq:
  "exact_candidate row_l df_b mb idx_b \<longleftrightarrow>
     idx_b < length df_b \<and> idx_b \<notin> mb
     \<and> isclose (abs_amt (df_b ! idx_b)) (abs_amt row_l) (fl (1 / 100))
     \<and> within_days row_l (df_b ! idx_b)"
  by (auto simp: exact_candidate_def exact_def candidates_def in_iterrows)

lemma fee_candidate_eq:
  "fee_candidate row_l df_b mb idx_b \<longleftrightarrow>
     idx_b < length df_b \<and> idx_b \<notin> mb
     \<and> abs_amt (df_b ! idx_b) < abs_amt row_l
     \<and> fl (abs_amt row_l * fl (96 / 100)) < abs_amt (df_b ! idx_b)
     \<and> within_days row_l (df_b ! idx_b)"
  by (auto simp: fee_candidate_def fee_candidates_def candidates_def in_iterrows)

lemma exact_step_claims_iff:
  assumes "idx_l \<notin> matched_l s"
  shows "idx_l \<in> matched_l (exact_step idx_l row_l df_b s) \<longleftrightarrow>
           (\<exists>i<length df_b. exact_candidate row_l df_b (matched_b s) i)"
proof (cases "find (\<lambda>(idx_b, row_b). idx_b \<notin> matched_b s
                        \<and> isclose (abs_amt row_b) (abs_amt row_l) (fl (1 / 100))
                        \<and> within_days row_l row_b) (iterrows df_b)")
  case None
  then have "exact_step idx_l row_l df_b s = s"
    by (simp add: exact_step_find)
  moreover from None have "\<not> (\<exists>i<length df_b. exact_candidate row_l df_b (matched_b s) i)"
    by (auto simp: find_iterrows_None_iff exact_candidate_eq)
  ultimately show ?thesis
    using assms by simp
next
  case (Some p)
  obtain i r where p: "p = (i, r)" by (cases p)
  from find_iterrows_Some[OF Some[unfolded p]] Some p show ?thesis
    using assms by (auto simp: exact_step_find exact_candidate_eq bind_def)
qed

lemma fee_step_claims_iff:
  assumes "idx_l \<notin> matched_l s" and "0 < abs_amt row_l"
  shows "idx_l \<in> matched_l (fee_step idx_l row_l df_b s) \<longleftrightarrow>
           (\<exists>i<length df_b. fee_candidate row_l df_b (matched_b s) i)"
proof (cases "find (\<lambda>(idx_b, row_b). idx_b \<notin> matched_b s
                        \<and> abs_amt row_b < abs_amt row_l
                        \<and> fl (abs_amt row_l * fl (96 / 100)) < abs_amt row_b
                        \<and> within_days row_l row_b) (iterrows df_b)")
  case None
  then have "fee_step idx_l row_l df_b s = s"
    by (simp add: fee_step_find)
  moreover from None have "\<not> (\<exists>i<length df_b. fee_candidate row_l df_b (matched_b s) i)"
    by (auto simp: find_iterrows_None_iff fee_candidate_eq)
  ultimately show ?thesis
    using assms by simp
next
  case (Some p)
  obtain i r where p: "p = (i, r)" by (cases p)
  from find_iterrows_Some[OF Some[unfolded p]] Some p show ?thesis
    using assms by (auto simp: fee_step_find fee_candidate_eq bind_def)
qed

lemma exact_step_first:
  assumes "idx_l \<notin> matched_l s"
    and "exact_candidate row_l df_b (matched_b s) idx_b"
    and "\<forall>j<idx_b. \<not> exact_candidate row_l df_b (matched_b s) j"
  shows "exact_step idx_l row_l df_b s
           = bind (exact_entry idx_l row_l idx_b (df_b ! idx_b)) idx_l idx_b s"
proof -
  let ?P = "\<lambda>(i, r). i \<notin> matched_b s \<and> isclose (abs_amt r) (abs_amt row_l) (fl (1 / 100))
                      \<and> within_days row_l r"
  from assms(2) have i: "idx_b < length df_b" and P: "?P (idx_b, df_b ! idx_b)"
    by (simp_all add: exact_candidate_eq)
  from assms(3) i have "\<forall>j<idx_b. \<not> ?P (j, df_b ! j)"
    by (auto simp: exact_candidate_eq)
  with i P have "find ?P (iterrows df_b) = Some (idx_b, df_b ! idx_b)"
    by (rule find_iterrows_first)
  with assms(1) show ?thesis
    by (simp add: exact_step_find)
qed

lemma exact_step_none:
  assumes "\<forall>j<length df_b. \<not> exact_candidate row_l df_b (matched_b s) j"
  shows "exact_step idx_l row_l df_b s = s"
proof -
  from assms have "find (\<lambda>(idx_b, row_b). idx_b \<notin> matched_b s
                        \<and> isclose (abs_amt row_b) (abs_amt row_l) (fl (1 / 100))
                        \<and> within_days row_l row_b) (iterrows df_b) = None"
    by (auto simp: find_iterrows_None_iff exact_candidate_eq)
  then show ?thesis
    by (simp add: exact_step_find)
qed

section \<open>The tests of the amounts\<close>

lemma rtol_nonneg: "0 \<le> rtol"
  unfolding rtol_def by (rule fl_nonneg) simp

lemma atol_double: "fl (fl (1 / 100)) = fl (1 / 100)"
  by (simp add: fl_eval)

lemma isclose_abs: "isclose a b atol \<longleftrightarrow> fl \<bar>a - b\<bar> \<le> fl (atol + fl (rtol * \<bar>b\<bar>))"
  by (simp add: isclose_def abs_fl)

lemma isclose_within_atol:
  assumes "\<bar>a - b\<bar> \<le> 1 / 100"
  shows "isclose a b (fl (1 / 100))"
proof -
  have "fl \<bar>a - b\<bar> \<le> fl (1 / 100)"
    using assms by (intro fl_mono) simp_all
  also have "\<dots> = fl (fl (1 / 100))"
    by (simp only: atol_double)
  also have "\<dots> \<le> fl (fl (1 / 100) + fl (rtol * \<bar>b\<bar>))"
  proof (rule fl_mono)
    show "0 \<le> fl (1 / 100)"
      by (rule fl_nonneg) simp
    have "0 \<le> fl (rtol * \<bar>b\<bar>)"
      using rtol_nonneg by (intro fl_nonneg) simp
    then show "fl (1 / 100) \<le> fl (1 / 100) + fl (rtol * \<bar>b\<bar>)"
      by simp
  qed
  finally show ?thesis
    by (simp only: isclose_abs)
qed

lemma tolerance_below_100: "fl (fl (1 / 100) + fl (rtol * (9999 / 100))) < fl (11 / 1000)"
  by (simp add: rtol_def fl_eval)

lemma isclose_beyond_atol:
  assumes "11 / 1000 \<le> \<bar>a - b\<bar>" and "\<bar>b\<bar> \<le> 9999 / 100"
  shows "\<not> isclose a b (fl (1 / 100))"
proof -
  have r: "0 \<le> rtol * \<bar>b\<bar>"
    using rtol_nonneg by simp
  have "rtol * \<bar>b\<bar> \<le> rtol * (9999 / 100)"
    using assms(2) rtol_nonneg by (rule mult_left_mono)
  with r have "fl (rtol * \<bar>b\<bar>) \<le> fl (rtol * (9999 / 100))"
    by (rule fl_mono)
  moreover have "0 \<le> fl (1 / 100) + fl (rtol * \<bar>b\<bar>)"
    using r by (intro add_nonneg_nonneg fl_nonneg) simp_all
  ultimately have "fl (fl (1 / 100) + fl (rtol * \<bar>b\<bar>))
      \<le> fl (fl (1 / 100) + fl (rtol * (9999 / 100)))"
    by (intro fl_mono) simp_all
  also note tolerance_below_100
  also have "fl (11 / 1000) \<le> fl \<bar>a - b\<bar>"
    using assms(1) by (intro fl_mono) simp_all
  finally show ?thesis
    by (simp add: isclose_abs)
qed

lemma isclose_zero: "isclose a 0 (fl (1 / 100)) \<longleftrightarrow> fl \<bar>a\<bar> \<le> fl (1 / 100)"
  by (simp add: isclose_abs fl_0 atol_double)

lemma fl_96: "fl (96 / 100) = 8646911284551352 / 9007199254740992"
  by (simp add: fl_eval)

lemma fee_threshold_bounds:
  assumes "1 / 100 \<le> l"
  shows "l * (9599 / 10000) < fl (l * fl (96 / 100))"
    and "fl (l * fl (96 / 100)) < l * (9601 / 10000)"
proof -
  let ?z = "l * fl (96 / 100)"
  have z: "?z = l * (8646911284551352 / 9007199254740992)"
    by (simp only: fl_96)
  have "(2::real) powi (- 1022) \<le> 2 powi (- 7)"
    by (intro power_int_increasing) simp_all
  also have "\<dots> = 1 / 128"
    by (simp add: power_int_minus)
  also have "\<dots> \<le> ?z"
    using assms unfolding z by simp
  finally have "\<bar>fl ?z - ?z\<bar> \<le> ?z / 2 ^ 53"
    by (rule fl_error)
  then have e: "?z - ?z / 2 ^ 53 \<le> fl ?z" "fl ?z \<le> ?z + ?z / 2 ^ 53"
    by linarith+
  show "l * (9599 / 10000) < fl ?z"
    using e(1) assms unfolding z by simp
  show "fl ?z < l * (9601 / 10000)"
    using e(2) assms unfolding z by simp
qed

section \<open>The first fit of the fee pass, and what a pass keeps\<close>

lemma fee_step_first:
  assumes "idx_l \<notin> matched_l s" and "0 < abs_amt row_l"
    and "fee_candidate row_l df_b (matched_b s) idx_b"
    and "\<forall>j<idx_b. \<not> fee_candidate row_l df_b (matched_b s) j"
  shows "fee_step idx_l row_l df_b s
           = bind (fee_entry idx_l row_l idx_b (df_b ! idx_b)) idx_l idx_b s"
proof -
  let ?P = "\<lambda>(i, r). i \<notin> matched_b s \<and> abs_amt r < abs_amt row_l
                      \<and> fl (abs_amt row_l * fl (96 / 100)) < abs_amt r
                      \<and> within_days row_l r"
  from assms(3) have i: "idx_b < length df_b" and P: "?P (idx_b, df_b ! idx_b)"
    by (simp_all add: fee_candidate_eq)
  from assms(4) i have "\<forall>j<idx_b. \<not> ?P (j, df_b ! j)"
    by (auto simp: fee_candidate_eq)
  with i P have "find ?P (iterrows df_b) = Some (idx_b, df_b ! idx_b)"
    by (rule find_iterrows_first)
  with assms(1,2) show ?thesis
    by (simp add: fee_step_find)
qed

lemma fee_step_none:
  assumes "\<forall>j<length df_b. \<not> fee_candidate row_l df_b (matched_b s) j"
  shows "fee_step idx_l row_l df_b s = s"
proof -
  from assms have "find (\<lambda>(idx_b, row_b). idx_b \<notin> matched_b s
                        \<and> abs_amt row_b < abs_amt row_l
                        \<and> fl (abs_amt row_l * fl (96 / 100)) < abs_amt row_b
                        \<and> within_days row_l row_b) (iterrows df_b) = None"
    by (auto simp: find_iterrows_None_iff fee_candidate_eq)
  then show ?thesis
    by (simp add: fee_step_find)
qed

lemma matched_l_exact_step: "matched_l s \<subseteq> matched_l (exact_step il rl df_b s)"
  by (auto simp: exact_step_find bind_def split: option.splits)

lemma matched_l_exact_pass: "matched_l s \<subseteq> matched_l (exact_pass rows df_b s)"
proof (induction rows arbitrary: s)
  case Nil
  show ?case by simp
next
  case (Cons p rows)
  obtain il rl where p: "p = (il, rl)" by (cases p)
  have "matched_l s \<subseteq> matched_l (exact_step il rl df_b s)"
    by (rule matched_l_exact_step)
  also have "\<dots> \<subseteq> matched_l (exact_pass rows df_b (exact_step il rl df_b s))"
    by (rule Cons.IH)
  finally show ?case
    by (simp add: p)
qed

lemma matched_l_fee_step: "matched_l s \<subseteq> matched_l (fee_step il rl df_b s)"
  by (auto simp: fee_step_find bind_def split: option.splits)

lemma matched_l_fee_pass: "matched_l s \<subseteq> matched_l (fee_pass rows df_b s)"
proof (induction rows arbitrary: s)
  case Nil
  show ?case by simp
next
  case (Cons p rows)
  obtain il rl where p: "p = (il, rl)" by (cases p)
  have "matched_l s \<subseteq> matched_l (fee_step il rl df_b s)"
    by (rule matched_l_fee_step)
  also have "\<dots> \<subseteq> matched_l (fee_pass rows df_b (fee_step il rl df_b s))"
    by (rule Cons.IH)
  finally show ?case
    by (simp add: p)
qed

section \<open>A run on one ledger row and one bank row\<close>

lemma single_pair_run:
  "execute_reconciliation (Inr [row_l]) (Inr [row_b]) =
     Inr (if isclose (abs_amt row_b) (abs_amt row_l) (fl (1 / 100)) \<and> within_days row_l row_b
          then [exact_entry 0 row_l 0 row_b]
          else if 0 < abs_amt row_l \<and> abs_amt row_b < abs_amt row_l
                  \<and> fl (abs_amt row_l * fl (96 / 100)) < abs_amt row_b
                  \<and> within_days row_l row_b
          then [fee_entry 0 row_l 0 row_b]
          else [unmatched_bank_entry 0 row_b, unmatched_ledger_entry 0 row_l])"
  by (simp add: execute_reconciliation_def report_def run_passes_def iterrows_def
        init_state_def exact_step_def exact_def candidates_def fee_step_def
        fee_candidates_def bind_def)

lemma exact_entry_not_fee_entry:
  "exact_entry il rl ib rb \<noteq> fee_entry il' rl' ib' rb'"
  "fee_entry il' rl' ib' rb' \<noteq> exact_entry il rl ib rb"
  by (simp_all add: exact_entry_def fee_entry_def)

lemma single_pair_exact:
  "execute_reconciliation (Inr [row_l]) (Inr [row_b]) = Inr [exact_entry 0 row_l 0 row_b] \<longleftrightarrow>
     isclose (abs_amt row_b) (abs_amt row_l) (fl (1 / 100)) \<and> within_days row_l row_b"
  by (simp add: single_pair_run exact_entry_not_fee_entry)

lemma single_pair_fee:
  "execute_reconciliation (Inr [row_l]) (Inr [row_b]) = Inr [fee_entry 0 row_l 0 row_b] \<longleftrightarrow>
     \<not> (isclose (abs_amt row_b) (abs_amt row_l) (fl (1 / 100)) \<and> within_days row_l row_b)
     \<and> 0 < abs_amt row_l \<and> abs_amt row_b < abs_amt row_l
     \<and> fl (abs_amt row_l * fl (96 / 100)) < abs_amt row_b
     \<and> within_days row_l row_b"
  by (auto simp: single_pair_run exact_entry_not_fee_entry)

section \<open>The order of the matches\<close>

lemma exact_step_appends:
  "matches (exact_step il rl df_b s) = matches s
   \<or> (\<exists>ib rb. matches (exact_step il rl df_b s) = matches s @ [exact_entry il rl ib rb])"
  by (auto simp: exact_step_find split: option.splits)

lemma fee_step_appends:
  "matches (fee_step il rl df_b s) = matches s
   \<or> (\<exists>ib rb. matches (fee_step il rl df_b s) = matches s @ [fee_entry il rl ib rb])"
  by (auto simp: fee_step_find split: option.splits)

lemma exact_pass_appends:
  assumes "sorted_wrt (<) (map fst rows)"
  shows "\<exists>ms. matches (exact_pass rows df_b s) = matches s @ ms
           \<and> (\<forall>e \<in> set ms. Match_Quality (row e) = Exact_Match)
           \<and> sorted_wrt (<) (ledger_refs ms)
           \<and> set (ledger_refs ms) \<subseteq> fst ` set rows"
  using assms
proof (induction rows arbitrary: s)
  case Nil
  show ?case by simp
next
  case (Cons p rows)
  obtain il rl where p: "p = (il, rl)" by (cases p)
  from Cons.prems p have srt: "sorted_wrt (<) (map fst rows)"
    and lt: "\<forall>i \<in> fst ` set rows. il < i"
    by auto
  let ?s = "exact_step il rl df_b s"
  from Cons.IH [OF srt, of ?s] obtain ms where
    ms: "matches (exact_pass rows df_b ?s) = matches ?s @ ms"
      "\<forall>e \<in> set ms. Match_Quality (row e) = Exact_Match"
      "sorted_wrt (<) (ledger_refs ms)"
      "set (ledger_refs ms) \<subseteq> fst ` set rows"
    by blast
  from exact_step_appends [of il rl df_b s] show ?case
  proof
    assume "matches ?s = matches s"
    with ms p show ?thesis
      by (intro exI [of _ ms]) auto
  next
    assume "\<exists>ib rb. matches ?s = matches s @ [exact_entry il rl ib rb]"
    then obtain ib rb where "matches ?s = matches s @ [exact_entry il rl ib rb]"
      by blast
    with ms p lt show ?thesis
      by (intro exI [of _ "exact_entry il rl ib rb # ms"]) auto
  qed
qed

lemma fee_pass_appends:
  assumes "sorted_wrt (<) (map fst rows)"
  shows "\<exists>ms. matches (fee_pass rows df_b s) = matches s @ ms
           \<and> (\<forall>e \<in> set ms. Match_Quality (row e) = Partial_Match_Fee)
           \<and> sorted_wrt (<) (ledger_refs ms)
           \<and> set (ledger_refs ms) \<subseteq> fst ` set rows"
  using assms
proof (induction rows arbitrary: s)
  case Nil
  show ?case by simp
next
  case (Cons p rows)
  obtain il rl where p: "p = (il, rl)" by (cases p)
  from Cons.prems p have srt: "sorted_wrt (<) (map fst rows)"
    and lt: "\<forall>i \<in> fst ` set rows. il < i"
    by auto
  let ?s = "fee_step il rl df_b s"
  from Cons.IH [OF srt, of ?s] obtain ms where
    ms: "matches (fee_pass rows df_b ?s) = matches ?s @ ms"
      "\<forall>e \<in> set ms. Match_Quality (row e) = Partial_Match_Fee"
      "sorted_wrt (<) (ledger_refs ms)"
      "set (ledger_refs ms) \<subseteq> fst ` set rows"
    by blast
  from fee_step_appends [of il rl df_b s] show ?case
  proof
    assume "matches ?s = matches s"
    with ms p show ?thesis
      by (intro exI [of _ ms]) auto
  next
    assume "\<exists>ib rb. matches ?s = matches s @ [fee_entry il rl ib rb]"
    then obtain ib rb where "matches ?s = matches s @ [fee_entry il rl ib rb]"
      by blast
    with ms p lt show ?thesis
      by (intro exI [of _ "fee_entry il rl ib rb # ms"]) auto
  qed
qed

lemma sorted_iterrows: "sorted_wrt (<) (map fst (iterrows df))"
  by (simp add: iterrows_def)

lemma report_order:
  "\<exists>ex fee.
      report df_l df_b =
        ex @ fee
        @ map (\<lambda>i. unmatched_bank_entry i (df_b ! i))
            (filter (\<lambda>i. i \<notin> set (bank_refs (ex @ fee))) [0..<length df_b])
        @ map (\<lambda>i. unmatched_ledger_entry i (df_l ! i))
            (filter (\<lambda>i. i \<notin> set (ledger_refs (ex @ fee))) [0..<length df_l])
      \<and> (\<forall>e \<in> set ex. Match_Quality (row e) = Exact_Match)
      \<and> sorted_wrt (<) (ledger_refs ex)
      \<and> (\<forall>e \<in> set fee. Match_Quality (row e) = Partial_Match_Fee)
      \<and> sorted_wrt (<) (ledger_refs fee)"
proof -
  let ?s = "exact_pass (iterrows df_l) df_b init_state"
  from exact_pass_appends [OF sorted_iterrows, of df_l df_b init_state]
  obtain ex where ex: "matches ?s = ex"
      "\<forall>e \<in> set ex. Match_Quality (row e) = Exact_Match" "sorted_wrt (<) (ledger_refs ex)"
    by (auto simp: init_state_def)
  from fee_pass_appends [OF sorted_iterrows, of df_l df_b ?s]
  obtain fee where fee: "matches (run_passes df_l df_b) = ex @ fee"
      "\<forall>e \<in> set fee. Match_Quality (row e) = Partial_Match_Fee"
      "sorted_wrt (<) (ledger_refs fee)"
    unfolding run_passes_def ex(1) by blast
  from claims_ok_run_passes [of df_l df_b]
  have m: "matched_l (run_passes df_l df_b) = set (ledger_refs (ex @ fee))"
      "matched_b (run_passes df_l df_b) = set (bank_refs (ex @ fee))"
    by (simp_all add: claims_ok_def fee(1))
  have "report df_l df_b =
        ex @ fee
        @ map (\<lambda>i. unmatched_bank_entry i (df_b ! i))
            (filter (\<lambda>i. i \<notin> set (bank_refs (ex @ fee))) [0..<length df_b])
        @ map (\<lambda>i. unmatched_ledger_entry i (df_l ! i))
            (filter (\<lambda>i. i \<notin> set (ledger_refs (ex @ fee))) [0..<length df_l])"
    by (simp only: report_by_index m fee(1) append_assoc)
  with ex(2,3) fee(2,3) show ?thesis
    by blast
qed

section \<open>The claims\<close>

text \<open>
  Claim C1. A run that returns outcomes partitions its input: every ledger row and every
  bank row is referred to by exactly one outcome of the report (so no two outcomes refer
  to the same row), and an outcome refers only to rows of the two frames.
\<close>

theorem outcomes_partition_inputs:
  assumes "execute_reconciliation (Inr df_l) (Inr df_b) = Inr out"
  shows "(\<forall>i<length df_l. length (filter (\<lambda>e. src_l e = Some i) out) = 1)
       \<and> (\<forall>i<length df_b. length (filter (\<lambda>e. src_b e = Some i) out) = 1)
       \<and> (\<forall>e \<in> set out. (\<forall>i. src_l e = Some i \<longrightarrow> i < length df_l)
                         \<and> (\<forall>i. src_b e = Some i \<longrightarrow> i < length df_b))"
proof -
  from assms have out: "out = report df_l df_b"
    by (simp add: execute_Inr)
  have l: "distinct (ledger_refs out)" "set (ledger_refs out) = {..<length df_l}"
    using ledger_refs_partition[of df_l df_b] by (simp_all add: out)
  have b: "distinct (bank_refs out)" "set (bank_refs out) = {..<length df_b}"
    using bank_refs_partition[of df_l df_b] by (simp_all add: out)
  have "\<forall>i<length df_l. length (filter (\<lambda>e. src_l e = Some i) out) = 1"
    using l by (simp add: count_refs_l distinct_count_one)
  moreover have "\<forall>i<length df_b. length (filter (\<lambda>e. src_b e = Some i) out) = 1"
    using b by (simp add: count_refs_b distinct_count_one)
  moreover have "\<forall>e \<in> set out. (\<forall>i. src_l e = Some i \<longrightarrow> i < length df_l)
                         \<and> (\<forall>i. src_b e = Some i \<longrightarrow> i < length df_b)"
    using l(2) b(2) ref_in_ledger_refs[of _ out] ref_in_bank_refs[of _ out] by blast
  ultimately show ?thesis by blast
qed

theorem outcomes_partition_inputs_witness:
  "execute_reconciliation (Inr ledger_ex) (Inr bank_ex)
     = Inr [fee_entry 0 (ledger_ex ! 0) 1 (bank_ex ! 1),
            unmatched_bank_entry 0 (bank_ex ! 0),
            unmatched_ledger_entry 1 (ledger_ex ! 1)]
   \<and> length (filter (\<lambda>e. src_l e = Some 0) (report ledger_ex bank_ex)) = 1
   \<and> length (filter (\<lambda>e. src_l e = Some 1) (report ledger_ex bank_ex)) = 1
   \<and> length (filter (\<lambda>e. src_b e = Some 0) (report ledger_ex bank_ex)) = 1
   \<and> length (filter (\<lambda>e. src_b e = Some 1) (report ledger_ex bank_ex)) = 1"
proof -
  have run: "execute_reconciliation (Inr ledger_ex) (Inr bank_ex) = Inr (report ledger_ex bank_ex)"
    by (rule execute_ex)
  have len: "length ledger_ex = 2" "length bank_ex = 2"
    by (simp_all add: ledger_ex_def bank_ex_def)
  note part = outcomes_partition_inputs[OF run]
  from part have l: "\<forall>i<length ledger_ex.
      length (filter (\<lambda>e. src_l e = Some i) (report ledger_ex bank_ex)) = 1"
    by blast
  from part have b: "\<forall>i<length bank_ex.
      length (filter (\<lambda>e. src_b e = Some i) (report ledger_ex bank_ex)) = 1"
    by blast
  from l[rule_format, of 0] l[rule_format, of 1] b[rule_format, of 0] b[rule_format, of 1]
    run report_ex
  show ?thesis
    by (simp add: len)
qed

text \<open>
  Claim C2 says that a pair is an exact-match candidate exactly when the unsigned amounts
  differ by at most 0.01 and the dates by at most five days, so that a difference of
  0.011 never matches. The engine tests the amounts with \<^verbatim>\<open>np.isclose(..., atol=0.01)\<close>,
  whose default relative tolerance widens the bound by a hundred-thousandth of the ledger
  amount: a ledger amount of 1000.00 and a bank amount of 1000.011 on the same day are an
  exact match.
\<close>

theorem exact_candidate_counterexample:
  "execute_reconciliation
     (Inr [\<lparr>std_date = 10, std_desc = ''Invoice'', std_amt = 1000\<rparr>])
     (Inr [\<lparr>std_date = 10, std_desc = ''DEPOSIT'', std_amt = 1000011 / 1000\<rparr>])
   = Inr [exact_entry 0 \<lparr>std_date = 10, std_desc = ''Invoice'', std_amt = 1000\<rparr>
                      0 \<lparr>std_date = 10, std_desc = ''DEPOSIT'', std_amt = 1000011 / 1000\<rparr>]
   \<and> exact_candidate \<lparr>std_date = 10, std_desc = ''Invoice'', std_amt = 1000\<rparr>
        [\<lparr>std_date = 10, std_desc = ''DEPOSIT'', std_amt = 1000011 / 1000\<rparr>] {} 0
   \<and> \<not> \<bar>abs_amt \<lparr>std_date = 10, std_desc = ''DEPOSIT'', std_amt = 1000011 / 1000\<rparr>
         - abs_amt \<lparr>std_date = 10, std_desc = ''Invoice'', std_amt = 1000\<rparr>\<bar> \<le> 1 / 100"
  by (simp add: engine_defs exact_candidate_eq split del: if_split)

text \<open>
  Claim C2, as amended. In the exact-match pass a bank row is a candidate of a ledger row
  if and only if it is unclaimed, the test of \<^verbatim>\<open>np.isclose\<close> holds in double arithmetic,
  \<^verbatim>\<open>abs(bank - ledger) <= 0.01 + 1e-05 * ledger\<close> on the unsigned amounts with every
  operation rounded to a double, and the dates differ by at most five days. A row whose
  unsigned amount differs by at most 0.01 and whose date differs by at most five days is
  a candidate; one six days apart is not; one whose unsigned amount differs by 0.011 or
  more is not when the ledger's unsigned amount is at most 99.99. In the pass, an
  unclaimed ledger row with a candidate is claimed and one without leaves the state as it
  is; a run on one ledger row and one bank row reports an Exact Match exactly when the
  bank row is a candidate.
\<close>

theorem exact_candidate_iff_isclose_and_window:
  assumes "idx_b < length df_b"
  shows "(exact_candidate row_l df_b mb idx_b \<longleftrightarrow>
            idx_b \<notin> mb
            \<and> \<bar>fl (abs_amt (df_b ! idx_b) - abs_amt row_l)\<bar>
                  \<le> fl (fl (1 / 100) + fl (fl (1 / 100000) * abs_amt row_l))
            \<and> \<bar>std_date (df_b ! idx_b) - std_date row_l\<bar> \<le> 5)
       \<and> (idx_b \<notin> mb \<and> \<bar>abs_amt (df_b ! idx_b) - abs_amt row_l\<bar> \<le> 1 / 100
            \<and> \<bar>std_date (df_b ! idx_b) - std_date row_l\<bar> \<le> 5
          \<longrightarrow> exact_candidate row_l df_b mb idx_b)
       \<and> (\<bar>std_date (df_b ! idx_b) - std_date row_l\<bar> = 6
          \<longrightarrow> \<not> exact_candidate row_l df_b mb idx_b)
       \<and> (11 / 1000 \<le> \<bar>abs_amt (df_b ! idx_b) - abs_amt row_l\<bar>
            \<and> abs_amt row_l \<le> 9999 / 100
          \<longrightarrow> \<not> exact_candidate row_l df_b mb idx_b)
       \<and> (idx_l \<notin> matched_l s \<longrightarrow>
            (idx_l \<in> matched_l (exact_step idx_l row_l df_b s) \<longleftrightarrow>
               (\<exists>i<length df_b. exact_candidate row_l df_b (matched_b s) i)))
       \<and> (idx_l \<notin> matched_l s
            \<and> (\<exists>i<length df_b. exact_candidate row_l df_b (matched_b s) i) \<longrightarrow>
          idx_l \<in> matched_l (exact_pass ((idx_l, row_l) # rest) df_b s))
       \<and> (idx_l \<notin> matched_l s
            \<and> (\<forall>i<length df_b. \<not> exact_candidate row_l df_b (matched_b s) i) \<longrightarrow>
          exact_pass ((idx_l, row_l) # rest) df_b s = exact_pass rest df_b s)
       \<and> (execute_reconciliation (Inr [row_l]) (Inr [df_b ! idx_b])
              = Inr [exact_entry 0 row_l 0 (df_b ! idx_b)] \<longleftrightarrow>
            \<bar>fl (abs_amt (df_b ! idx_b) - abs_amt row_l)\<bar>
                  \<le> fl (fl (1 / 100) + fl (fl (1 / 100000) * abs_amt row_l))
            \<and> \<bar>std_date (df_b ! idx_b) - std_date row_l\<bar> \<le> 5)"
proof -
  have nn: "\<bar>abs_amt row_l\<bar> = abs_amt row_l"
    by (simp add: abs_amt_def)
  have test: "isclose (abs_amt (df_b ! idx_b)) (abs_amt row_l) (fl (1 / 100)) \<longleftrightarrow>
      \<bar>fl (abs_amt (df_b ! idx_b) - abs_amt row_l)\<bar>
        \<le> fl (fl (1 / 100) + fl (fl (1 / 100000) * abs_amt row_l))"
    by (simp only: isclose_def rtol_def nn)
  have iff: "exact_candidate row_l df_b mb idx_b \<longleftrightarrow>
            idx_b \<notin> mb
            \<and> \<bar>fl (abs_amt (df_b ! idx_b) - abs_amt row_l)\<bar>
                  \<le> fl (fl (1 / 100) + fl (fl (1 / 100000) * abs_amt row_l))
            \<and> \<bar>std_date (df_b ! idx_b) - std_date row_l\<bar> \<le> 5"
    using assms by (simp add: exact_candidate_eq test within_days_def)
  have a: "idx_b \<notin> mb \<and> \<bar>abs_amt (df_b ! idx_b) - abs_amt row_l\<bar> \<le> 1 / 100
            \<and> \<bar>std_date (df_b ! idx_b) - std_date row_l\<bar> \<le> 5
          \<longrightarrow> exact_candidate row_l df_b mb idx_b"
    using assms isclose_within_atol [of "abs_amt (df_b ! idx_b)" "abs_amt row_l"]
    by (simp add: exact_candidate_eq within_days_def)
  have b: "\<bar>std_date (df_b ! idx_b) - std_date row_l\<bar> = 6
          \<longrightarrow> \<not> exact_candidate row_l df_b mb idx_b"
    by (simp add: iff)
  have c: "11 / 1000 \<le> \<bar>abs_amt (df_b ! idx_b) - abs_amt row_l\<bar>
            \<and> abs_amt row_l \<le> 9999 / 100
          \<longrightarrow> \<not> exact_candidate row_l df_b mb idx_b"
    using isclose_beyond_atol [of "abs_amt (df_b ! idx_b)" "abs_amt row_l"]
    by (simp add: exact_candidate_eq nn)
  have d: "idx_l \<notin> matched_l s \<longrightarrow>
            (idx_l \<in> matched_l (exact_step idx_l row_l df_b s) \<longleftrightarrow>
               (\<exists>i<length df_b. exact_candidate row_l df_b (matched_b s) i))"
    using exact_step_claims_iff [of idx_l s row_l df_b] by blast
  have e: "idx_l \<notin> matched_l s
            \<and> (\<exists>i<length df_b. exact_candidate row_l df_b (matched_b s) i) \<longrightarrow>
          idx_l \<in> matched_l (exact_pass ((idx_l, row_l) # rest) df_b s)"
    using d matched_l_exact_pass [of "exact_step idx_l row_l df_b s" rest df_b] by auto
  have f: "idx_l \<notin> matched_l s
            \<and> (\<forall>i<length df_b. \<not> exact_candidate row_l df_b (matched_b s) i) \<longrightarrow>
          exact_pass ((idx_l, row_l) # rest) df_b s = exact_pass rest df_b s"
    using exact_step_none [of df_b row_l s idx_l] by auto
  have g: "execute_reconciliation (Inr [row_l]) (Inr [df_b ! idx_b])
              = Inr [exact_entry 0 row_l 0 (df_b ! idx_b)] \<longleftrightarrow>
            \<bar>fl (abs_amt (df_b ! idx_b) - abs_amt row_l)\<bar>
                  \<le> fl (fl (1 / 100) + fl (fl (1 / 100000) * abs_amt row_l))
            \<and> \<bar>std_date (df_b ! idx_b) - std_date row_l\<bar> \<le> 5"
    by (simp only: single_pair_exact test within_days_def)
  from iff a b c d e f g show ?thesis
    by blast
qed

theorem exact_candidate_iff_isclose_and_window_witness:
  "exact_candidate \<lparr>std_date = 10, std_desc = ''Invoice'', std_amt = 500\<rparr>
     [\<lparr>std_date = 15, std_desc = ''DEPOSIT'', std_amt = - (50001 / 100)\<rparr>] {} 0
   \<and> \<not> exact_candidate \<lparr>std_date = 10, std_desc = ''Invoice'', std_amt = 500\<rparr>
     [\<lparr>std_date = 16, std_desc = ''DEPOSIT'', std_amt = - (50001 / 100)\<rparr>] {} 0
   \<and> \<not> exact_candidate \<lparr>std_date = 10, std_desc = ''Invoice'', std_amt = 50\<rparr>
     [\<lparr>std_date = 10, std_desc = ''DEPOSIT'', std_amt = 50011 / 1000\<rparr>] {} 0
   \<and> \<not> exact_candidate \<lparr>std_date = 10, std_desc = ''Invoice'', std_amt = 4000\<rparr>
     [\<lparr>std_date = 10, std_desc = ''DEPOSIT'', std_amt = fl (400005 / 100)\<rparr>] {} 0
   \<and> 0 \<in> matched_l (exact_pass [(0, \<lparr>std_date = 10, std_desc = ''Invoice'', std_amt = 500\<rparr>)]
            [\<lparr>std_date = 15, std_desc = ''DEPOSIT'', std_amt = - (50001 / 100)\<rparr>] init_state)
   \<and> execute_reconciliation
        (Inr [\<lparr>std_date = 10, std_desc = ''Invoice'', std_amt = 500\<rparr>])
        (Inr [\<lparr>std_date = 15, std_desc = ''DEPOSIT'', std_amt = - (50001 / 100)\<rparr>])
      = Inr [exact_entry 0 \<lparr>std_date = 10, std_desc = ''Invoice'', std_amt = 500\<rparr>
               0 \<lparr>std_date = 15, std_desc = ''DEPOSIT'', std_amt = - (50001 / 100)\<rparr>]"
proof -
  let ?l = "\<lparr>std_date = 10, std_desc = ''Invoice'', std_amt = 500\<rparr>"
  let ?b = "[\<lparr>std_date = 15, std_desc = ''DEPOSIT'', std_amt = - (50001 / 100)\<rparr>]"
  let ?b6 = "[\<lparr>std_date = 16, std_desc = ''DEPOSIT'', std_amt = - (50001 / 100)\<rparr>]"
  let ?l50 = "\<lparr>std_date = 10, std_desc = ''Invoice'', std_amt = 50\<rparr>"
  let ?b11 = "[\<lparr>std_date = 10, std_desc = ''DEPOSIT'', std_amt = 50011 / 1000\<rparr>]"
  let ?l4000 = "\<lparr>std_date = 10, std_desc = ''Invoice'', std_amt = 4000\<rparr>"
  let ?b5 = "[\<lparr>std_date = 10, std_desc = ''DEPOSIT'', std_amt = fl (400005 / 100)\<rparr>]"
  have h: "(0::nat) < length ?b" "(0::nat) < length ?b6" "(0::nat) < length ?b11"
    "(0::nat) < length ?b5"
    by simp_all
  have m: "matched_b init_state = {}" "(0::nat) \<notin> matched_l init_state"
    by (simp_all add: init_state_def)
  note t = exact_candidate_iff_isclose_and_window [OF h(1), of ?l "{}" 0 init_state "[]"]
  have p1: "(0::nat) \<notin> {} \<and> \<bar>abs_amt (?b ! 0) - abs_amt ?l\<bar> \<le> 1 / 100
      \<and> \<bar>std_date (?b ! 0) - std_date ?l\<bar> \<le> 5"
    by (simp add: abs_amt_def)
  from t p1 have c1: "exact_candidate ?l ?b {} 0"
    by blast
  have p2: "\<bar>std_date (?b6 ! 0) - std_date ?l\<bar> = 6"
    by simp
  from exact_candidate_iff_isclose_and_window [OF h(2), of ?l "{}" 0 init_state "[]"] p2
  have c2: "\<not> exact_candidate ?l ?b6 {} 0"
    by blast
  have p3: "11 / 1000 \<le> \<bar>abs_amt (?b11 ! 0) - abs_amt ?l50\<bar> \<and> abs_amt ?l50 \<le> 9999 / 100"
    by (simp add: abs_amt_def)
  from exact_candidate_iff_isclose_and_window [OF h(3), of ?l50 "{}" 0 init_state "[]"] p3
  have c3: "\<not> exact_candidate ?l50 ?b11 {} 0"
    by blast
  have p4: "\<not> \<bar>fl (abs_amt (?b5 ! 0) - abs_amt ?l4000)\<bar>
                 \<le> fl (fl (1 / 100) + fl (fl (1 / 100000) * abs_amt ?l4000))"
    by (simp add: abs_amt_def fl_eval split del: if_split)
  from exact_candidate_iff_isclose_and_window [OF h(4), of ?l4000 "{}" 0 init_state "[]"] p4
  have c4: "\<not> exact_candidate ?l4000 ?b5 {} 0"
    by blast
  have p5: "\<exists>i<length ?b. exact_candidate ?l ?b (matched_b init_state) i"
    using c1 h(1) unfolding m by blast
  from t p5 m(2) have c5: "0 \<in> matched_l (exact_pass [(0, ?l)] ?b init_state)"
    by blast
  from t c1 have p6: "\<bar>fl (abs_amt (?b ! 0) - abs_amt ?l)\<bar>
             \<le> fl (fl (1 / 100) + fl (fl (1 / 100000) * abs_amt ?l))
           \<and> \<bar>std_date (?b ! 0) - std_date ?l\<bar> \<le> 5"
    by blast
  from t p6 have c6: "execute_reconciliation (Inr [?l]) (Inr [?b ! 0])
      = Inr [exact_entry 0 ?l 0 (?b ! 0)]"
    by blast
  from c1 c2 c3 c4 c5 c6 show ?thesis
    by simp
qed

text \<open>
  Claim C3 says that a bank amount at exactly 96 per cent of the ledger amount is not a
  fee-match candidate. The engine compares the bank amount with the double product
  \<^verbatim>\<open>row_l['abs_amt'] * 0.96\<close>, which can fall below 96 per cent of the ledger amount:
  for a ledger amount of 11.00 the product is 10.559999999999999, and a bank amount of
  10.56, two days later, is reported as a Partial Match (Fee).
\<close>

theorem fee_candidate_counterexample:
  "execute_reconciliation
     (Inr [\<lparr>std_date = 10, std_desc = ''Invoice'', std_amt = 11\<rparr>])
     (Inr [\<lparr>std_date = 12, std_desc = ''PAYOUT'', std_amt = fl (1056 / 100)\<rparr>])
   = Inr [fee_entry 0 \<lparr>std_date = 10, std_desc = ''Invoice'', std_amt = 11\<rparr>
                    0 \<lparr>std_date = 12, std_desc = ''PAYOUT'', std_amt = fl (1056 / 100)\<rparr>]
   \<and> fee_candidate \<lparr>std_date = 10, std_desc = ''Invoice'', std_amt = 11\<rparr>
        [\<lparr>std_date = 12, std_desc = ''PAYOUT'', std_amt = fl (1056 / 100)\<rparr>] {} 0
   \<and> fee_candidate \<lparr>std_date = 10, std_desc = ''Invoice'', std_amt = 11\<rparr>
        [\<lparr>std_date = 12, std_desc = ''PAYOUT'', std_amt = 1056 / 100\<rparr>] {} 0
   \<and> abs_amt \<lparr>std_date = 12, std_desc = ''PAYOUT'', std_amt = 1056 / 100\<rparr>
        = abs_amt \<lparr>std_date = 10, std_desc = ''Invoice'', std_amt = 11\<rparr> * (96 / 100)"
  by (simp add: engine_defs fee_candidate_eq split del: if_split)

text \<open>
  Claim C3, as amended. For a ledger row with a positive unsigned amount, an unclaimed
  bank row within five days is a fee-match candidate if and only if its unsigned amount
  is strictly below the ledger's and strictly above the double product of the ledger's
  unsigned amount and 0.96. For a ledger amount of at least 0.01, a bank amount of at
  most 95.99 per cent of it is not a candidate, and one of at least 96.01 per cent that
  is below the ledger amount is. In the pass, an unclaimed ledger row with a positive
  amount is bound to its first candidate in bank row order, and one without a candidate
  leaves the state as it is; a run on one ledger row and one bank row reports a Partial
  Match (Fee) exactly when the bank row fails the exact test and is a fee candidate.
\<close>

theorem fee_candidate_iff_strict_window:
  assumes "idx_b < length df_b" and "idx_b \<notin> mb" and "within_days row_l (df_b ! idx_b)"
    and "0 < abs_amt row_l"
  shows "(fee_candidate row_l df_b mb idx_b \<longleftrightarrow>
            abs_amt (df_b ! idx_b) < abs_amt row_l
            \<and> fl (abs_amt row_l * fl (96 / 100)) < abs_amt (df_b ! idx_b))
       \<and> (1 / 100 \<le> abs_amt row_l
            \<and> abs_amt (df_b ! idx_b) \<le> abs_amt row_l * (9599 / 10000)
          \<longrightarrow> \<not> fee_candidate row_l df_b mb idx_b)
       \<and> (1 / 100 \<le> abs_amt row_l
            \<and> abs_amt row_l * (9601 / 10000) \<le> abs_amt (df_b ! idx_b)
            \<and> abs_amt (df_b ! idx_b) < abs_amt row_l
          \<longrightarrow> fee_candidate row_l df_b mb idx_b)
       \<and> (idx_l \<notin> matched_l s \<longrightarrow>
            (idx_l \<in> matched_l (fee_step idx_l row_l df_b s) \<longleftrightarrow>
               (\<exists>i<length df_b. fee_candidate row_l df_b (matched_b s) i)))
       \<and> (idx_l \<notin> matched_l s \<and> fee_candidate row_l df_b (matched_b s) idx_b
            \<and> (\<forall>j<idx_b. \<not> fee_candidate row_l df_b (matched_b s) j) \<longrightarrow>
          fee_pass ((idx_l, row_l) # rest) df_b s
            = fee_pass rest df_b
                (s\<lparr>matches := matches s @ [fee_entry idx_l row_l idx_b (df_b ! idx_b)],
                   matched_l := insert idx_l (matched_l s),
                   matched_b := insert idx_b (matched_b s)\<rparr>))
       \<and> (idx_l \<notin> matched_l s
            \<and> (\<forall>j<length df_b. \<not> fee_candidate row_l df_b (matched_b s) j) \<longrightarrow>
          fee_pass ((idx_l, row_l) # rest) df_b s = fee_pass rest df_b s)
       \<and> (execute_reconciliation (Inr [row_l]) (Inr [df_b ! idx_b])
              = Inr [fee_entry 0 row_l 0 (df_b ! idx_b)] \<longleftrightarrow>
            \<not> isclose (abs_amt (df_b ! idx_b)) (abs_amt row_l) (fl (1 / 100))
            \<and> abs_amt (df_b ! idx_b) < abs_amt row_l
            \<and> fl (abs_amt row_l * fl (96 / 100)) < abs_amt (df_b ! idx_b))"
proof -
  have iff: "fee_candidate row_l df_b mb idx_b \<longleftrightarrow>
            abs_amt (df_b ! idx_b) < abs_amt row_l
            \<and> fl (abs_amt row_l * fl (96 / 100)) < abs_amt (df_b ! idx_b)"
    using assms(1-3) by (simp add: fee_candidate_eq)
  have a: "1 / 100 \<le> abs_amt row_l
            \<and> abs_amt (df_b ! idx_b) \<le> abs_amt row_l * (9599 / 10000)
          \<longrightarrow> \<not> fee_candidate row_l df_b mb idx_b"
    using fee_threshold_bounds(1) [of "abs_amt row_l"] unfolding iff by auto
  have b: "1 / 100 \<le> abs_amt row_l
            \<and> abs_amt row_l * (9601 / 10000) \<le> abs_amt (df_b ! idx_b)
            \<and> abs_amt (df_b ! idx_b) < abs_amt row_l
          \<longrightarrow> fee_candidate row_l df_b mb idx_b"
    using fee_threshold_bounds(2) [of "abs_amt row_l"] unfolding iff by auto
  have c: "idx_l \<notin> matched_l s \<longrightarrow>
            (idx_l \<in> matched_l (fee_step idx_l row_l df_b s) \<longleftrightarrow>
               (\<exists>i<length df_b. fee_candidate row_l df_b (matched_b s) i))"
    using fee_step_claims_iff [of idx_l s row_l df_b, OF _ assms(4)] by blast
  have d: "idx_l \<notin> matched_l s \<and> fee_candidate row_l df_b (matched_b s) idx_b
            \<and> (\<forall>j<idx_b. \<not> fee_candidate row_l df_b (matched_b s) j) \<longrightarrow>
          fee_pass ((idx_l, row_l) # rest) df_b s
            = fee_pass rest df_b
                (s\<lparr>matches := matches s @ [fee_entry idx_l row_l idx_b (df_b ! idx_b)],
                   matched_l := insert idx_l (matched_l s),
                   matched_b := insert idx_b (matched_b s)\<rparr>)"
    using fee_step_first [of idx_l s row_l df_b idx_b, OF _ assms(4)] by (auto simp: bind_def)
  have e: "idx_l \<notin> matched_l s
            \<and> (\<forall>j<length df_b. \<not> fee_candidate row_l df_b (matched_b s) j) \<longrightarrow>
          fee_pass ((idx_l, row_l) # rest) df_b s = fee_pass rest df_b s"
    using fee_step_none [of df_b row_l s idx_l] by auto
  have f: "execute_reconciliation (Inr [row_l]) (Inr [df_b ! idx_b])
              = Inr [fee_entry 0 row_l 0 (df_b ! idx_b)] \<longleftrightarrow>
            \<not> isclose (abs_amt (df_b ! idx_b)) (abs_amt row_l) (fl (1 / 100))
            \<and> abs_amt (df_b ! idx_b) < abs_amt row_l
            \<and> fl (abs_amt row_l * fl (96 / 100)) < abs_amt (df_b ! idx_b)"
    using assms(3,4) by (simp add: single_pair_fee)
  from iff a b c d e f show ?thesis
    by blast
qed

theorem fee_candidate_iff_strict_window_witness:
  "\<not> fee_candidate \<lparr>std_date = 10, std_desc = ''Invoice'', std_amt = 100\<rparr>
       [\<lparr>std_date = 12, std_desc = ''PAYOUT'', std_amt = 9599 / 100\<rparr>] {} 0
   \<and> fee_candidate \<lparr>std_date = 10, std_desc = ''Invoice'', std_amt = 100\<rparr>
       [\<lparr>std_date = 12, std_desc = ''PAYOUT'', std_amt = 9601 / 100\<rparr>] {} 0
   \<and> fee_pass [(0, \<lparr>std_date = 10, std_desc = ''Invoice'', std_amt = 100\<rparr>)]
        [\<lparr>std_date = 12, std_desc = ''PAYOUT'', std_amt = 9601 / 100\<rparr>] init_state
      = \<lparr>matches = [fee_entry 0 \<lparr>std_date = 10, std_desc = ''Invoice'', std_amt = 100\<rparr>
                           0 \<lparr>std_date = 12, std_desc = ''PAYOUT'', std_amt = 9601 / 100\<rparr>],
         matched_l = {0}, matched_b = {0}\<rparr>
   \<and> execute_reconciliation
        (Inr [\<lparr>std_date = 10, std_desc = ''Invoice'', std_amt = 100\<rparr>])
        (Inr [\<lparr>std_date = 12, std_desc = ''PAYOUT'', std_amt = 9601 / 100\<rparr>])
      = Inr [fee_entry 0 \<lparr>std_date = 10, std_desc = ''Invoice'', std_amt = 100\<rparr>
                       0 \<lparr>std_date = 12, std_desc = ''PAYOUT'', std_amt = 9601 / 100\<rparr>]"
proof -
  let ?l = "\<lparr>std_date = 10, std_desc = ''Invoice'', std_amt = 100\<rparr>"
  let ?b96 = "[\<lparr>std_date = 12, std_desc = ''PAYOUT'', std_amt = 9599 / 100\<rparr>]"
  let ?b = "[\<lparr>std_date = 12, std_desc = ''PAYOUT'', std_amt = 9601 / 100\<rparr>]"
  have m: "matched_b init_state = {}" "(0::nat) \<notin> matched_l init_state"
    by (simp_all add: init_state_def)
  have h: "(0::nat) < length ?b96" "(0::nat) < length ?b" "(0::nat) \<notin> matched_b init_state"
    "within_days ?l (?b96 ! 0)" "within_days ?l (?b ! 0)" "0 < abs_amt ?l"
    by (simp_all add: within_days_def abs_amt_def init_state_def)
  have p1: "1 / 100 \<le> abs_amt ?l \<and> abs_amt (?b96 ! 0) \<le> abs_amt ?l * (9599 / 10000)"
    by (simp add: abs_amt_def)
  from fee_candidate_iff_strict_window [OF h(1) h(3) h(4) h(6), of 0 init_state "[]"] p1
  have c1: "\<not> fee_candidate ?l ?b96 (matched_b init_state) 0"
    by blast
  note t = fee_candidate_iff_strict_window [OF h(2) h(3) h(5) h(6), of 0 init_state "[]"]
  have p2: "1 / 100 \<le> abs_amt ?l \<and> abs_amt ?l * (9601 / 10000) \<le> abs_amt (?b ! 0)
      \<and> abs_amt (?b ! 0) < abs_amt ?l"
    by (simp add: abs_amt_def)
  from t p2 have c2: "fee_candidate ?l ?b (matched_b init_state) 0"
    by blast
  have p3: "\<forall>j<(0::nat). \<not> fee_candidate ?l ?b (matched_b init_state) j"
    by simp
  from t c2 p3 m(2) have "fee_pass [(0, ?l)] ?b init_state
      = fee_pass [] ?b
          (init_state\<lparr>matches := matches init_state @ [fee_entry 0 ?l 0 (?b ! 0)],
             matched_l := insert 0 (matched_l init_state),
             matched_b := insert 0 (matched_b init_state)\<rparr>)"
    by blast
  then have c3: "fee_pass [(0, ?l)] ?b init_state
              = \<lparr>matches = [fee_entry 0 ?l 0 (?b ! 0)], matched_l = {0}, matched_b = {0}\<rparr>"
    by (simp add: init_state_def)
  have p4: "\<not> isclose (abs_amt (?b ! 0)) (abs_amt ?l) (fl (1 / 100))"
    by (simp add: abs_amt_def isclose_def rtol_def fl_eval split del: if_split)
  from t c2 have p5: "abs_amt (?b ! 0) < abs_amt ?l
      \<and> fl (abs_amt ?l * fl (96 / 100)) < abs_amt (?b ! 0)"
    by blast
  from t p4 p5 have c4: "execute_reconciliation (Inr [?l]) (Inr [?b ! 0])
      = Inr [fee_entry 0 ?l 0 (?b ! 0)]"
    by blast
  from c1 c2 c3 c4 show ?thesis
    by (simp add: m)
qed

text \<open>
  Claim C4. The exact-match pass takes the ledger rows in order. A row already claimed is
  skipped. Otherwise the row is bound to its first candidate in bank row order, whichever
  candidate is nearest: one Exact Match outcome with difference 0 referring to the two
  rows is appended, both indices are added to the matched sets, and the pass goes on with
  the next ledger row. A row without a candidate leaves the state as it is.
\<close>

theorem exact_pass_binds_first_candidate:
  "(idx_l \<in> matched_l s \<longrightarrow>
      exact_pass ((idx_l, row_l) # rest) df_b s = exact_pass rest df_b s)
   \<and> (idx_l \<notin> matched_l s \<and> exact_candidate row_l df_b (matched_b s) idx_b
        \<and> (\<forall>j<idx_b. \<not> exact_candidate row_l df_b (matched_b s) j) \<longrightarrow>
      exact_pass ((idx_l, row_l) # rest) df_b s
        = exact_pass rest df_b
            (s\<lparr>matches := matches s @ [exact_entry idx_l row_l idx_b (df_b ! idx_b)],
               matched_l := insert idx_l (matched_l s),
               matched_b := insert idx_b (matched_b s)\<rparr>)
      \<and> src_l (exact_entry idx_l row_l idx_b (df_b ! idx_b)) = Some idx_l
      \<and> src_b (exact_entry idx_l row_l idx_b (df_b ! idx_b)) = Some idx_b
      \<and> Match_Quality (row (exact_entry idx_l row_l idx_b (df_b ! idx_b))) = Exact_Match
      \<and> Difference (row (exact_entry idx_l row_l idx_b (df_b ! idx_b))) = Some 0)
   \<and> (idx_l \<notin> matched_l s
        \<and> (\<forall>j<length df_b. \<not> exact_candidate row_l df_b (matched_b s) j) \<longrightarrow>
      exact_pass ((idx_l, row_l) # rest) df_b s = exact_pass rest df_b s)"
proof -
  have a: "idx_l \<in> matched_l s \<longrightarrow>
      exact_pass ((idx_l, row_l) # rest) df_b s = exact_pass rest df_b s"
    by (simp add: exact_step_def)
  have b: "idx_l \<notin> matched_l s \<and> exact_candidate row_l df_b (matched_b s) idx_b
        \<and> (\<forall>j<idx_b. \<not> exact_candidate row_l df_b (matched_b s) j) \<longrightarrow>
      exact_pass ((idx_l, row_l) # rest) df_b s
        = exact_pass rest df_b
            (s\<lparr>matches := matches s @ [exact_entry idx_l row_l idx_b (df_b ! idx_b)],
               matched_l := insert idx_l (matched_l s),
               matched_b := insert idx_b (matched_b s)\<rparr>)"
    using exact_step_first[of idx_l s row_l df_b idx_b] by (auto simp: bind_def)
  have c: "idx_l \<notin> matched_l s
        \<and> (\<forall>j<length df_b. \<not> exact_candidate row_l df_b (matched_b s) j) \<longrightarrow>
      exact_pass ((idx_l, row_l) # rest) df_b s = exact_pass rest df_b s"
    using exact_step_none[of df_b row_l s idx_l] by auto
  have d: "Difference (row (exact_entry idx_l row_l idx_b (df_b ! idx_b))) = Some 0"
    by (simp add: exact_entry_def)
  from a b c d show ?thesis
    by simp
qed

theorem exact_pass_binds_first_candidate_witness:
  "exact_pass [(0, \<lparr>std_date = 10, std_desc = ''Invoice'', std_amt = 100\<rparr>)]
     [\<lparr>std_date = 15, std_desc = ''FIRST'', std_amt = - (10001 / 100)\<rparr>,
      \<lparr>std_date = 10, std_desc = ''CLOSEST'', std_amt = - 100\<rparr>] init_state
   = \<lparr>matches = [exact_entry 0 \<lparr>std_date = 10, std_desc = ''Invoice'', std_amt = 100\<rparr>
                              0 \<lparr>std_date = 15, std_desc = ''FIRST'', std_amt = - (10001 / 100)\<rparr>],
      matched_l = {0}, matched_b = {0}\<rparr>"
proof -
  let ?l = "\<lparr>std_date = 10, std_desc = ''Invoice'', std_amt = 100\<rparr>"
  let ?B = "[\<lparr>std_date = 15, std_desc = ''FIRST'', std_amt = - (10001 / 100)\<rparr>,
             \<lparr>std_date = 10, std_desc = ''CLOSEST'', std_amt = - 100\<rparr>]"
  have h: "(0::nat) \<notin> matched_l init_state" "exact_candidate ?l ?B (matched_b init_state) 0"
    "\<forall>j<(0::nat). \<not> exact_candidate ?l ?B (matched_b init_state) j"
    by (simp_all add: init_state_def exact_candidate_eq isclose_def rtol_def abs_amt_def
          within_days_def fl_eval split del: if_split)
  from exact_pass_binds_first_candidate[of 0 init_state ?l "[]" ?B 0] h show ?thesis
    by (simp add: init_state_def)
qed

text \<open>
  Claim C5. When reading the ledger or the bank file fails, the engine returns the read
  error with the text of the exception; when both are read and one of them has no rows,
  it returns the empty-input error. A failed run returns its error as a value and leaves
  the report file as it was: no outcome is produced.
\<close>

theorem failed_run_returns_error:
  "(norm_ledger = Inl msg \<longrightarrow>
      execute_reconciliation norm_ledger norm_bank = Inl (ReadError msg))
   \<and> (norm_ledger = Inr df_l \<and> norm_bank = Inl msg \<longrightarrow>
      execute_reconciliation norm_ledger norm_bank = Inl (ReadError msg))
   \<and> (norm_ledger = Inr df_l \<and> norm_bank = Inr df_b \<and> (df_l = [] \<or> df_b = []) \<longrightarrow>
      execute_reconciliation norm_ledger norm_bank = Inl EmptyInputError)
   \<and> (execute_reconciliation norm_ledger norm_bank = Inl err \<longrightarrow>
      engine_call report_file norm_ledger norm_bank = (report_file, Inl err))"
  by (auto simp: execute_reconciliation_def engine_call_def split: sum.splits)

theorem failed_run_returns_error_witness:
  "execute_reconciliation (Inl ''No such file'') (Inr bank_ex) = Inl (ReadError ''No such file'')
   \<and> engine_call None (Inl ''No such file'') (Inr bank_ex) = (None, Inl (ReadError ''No such file''))"
  using failed_run_returns_error[of "Inl ''No such file''" "''No such file''" "Inr bank_ex"
          "[]" "[]" "ReadError ''No such file''" None]
  by simp

text \<open>
  Claim C6. Every Partial Match (Fee) outcome of a report is built from a ledger row and
  a bank row of the input, its difference is the bank row's unsigned amount minus the
  ledger row's, rounded to two decimals, and that value is at most 0.
\<close>

theorem fee_difference_rounded_and_nonpositive:
  assumes "execute_reconciliation (Inr df_l) (Inr df_b) = Inr out"
    and "e \<in> set out"
    and "Match_Quality (row e) = Partial_Match_Fee"
  shows "\<exists>il ib. il < length df_l \<and> ib < length df_b
           \<and> src_l e = Some il \<and> src_b e = Some ib
           \<and> Difference (row e) = Some (round2 (abs_amt (df_b ! ib) - abs_amt (df_l ! il)))
           \<and> round2 (abs_amt (df_b ! ib) - abs_amt (df_l ! il)) \<le> 0"
proof -
  from assms(1) have "out = report df_l df_b"
    by (simp add: execute_Inr)
  with assms(2,3) have "e \<in> set (matches (run_passes df_l df_b))"
    by (auto simp: report_by_index)
  then have "matched_entry df_l df_b e"
    using matched_run_passes by blast
  with assms(3) obtain il ib where ib: "il < length df_l" "ib < length df_b"
    and e: "e = fee_entry il (df_l ! il) ib (df_b ! ib)"
    and lt: "abs_amt (df_b ! ib) < abs_amt (df_l ! il)"
    by (auto simp: matched_entry_def)
  from lt have "round2 (abs_amt (df_b ! ib) - abs_amt (df_l ! il)) \<le> 0"
    by (intro round2_nonpos) simp
  with ib e show ?thesis
    by (intro exI[of _ il] exI[of _ ib]) (simp add: fee_entry_def)
qed

theorem fee_difference_rounded_and_nonpositive_witness:
  "(\<exists>il ib. il < length ledger_ex \<and> ib < length bank_ex
      \<and> src_l (fee_entry 0 (ledger_ex ! 0) 1 (bank_ex ! 1)) = Some il
      \<and> src_b (fee_entry 0 (ledger_ex ! 0) 1 (bank_ex ! 1)) = Some ib
      \<and> Difference (row (fee_entry 0 (ledger_ex ! 0) 1 (bank_ex ! 1)))
          = Some (round2 (abs_amt (bank_ex ! ib) - abs_amt (ledger_ex ! il)))
      \<and> round2 (abs_amt (bank_ex ! ib) - abs_amt (ledger_ex ! il)) \<le> 0)
   \<and> Difference (row (fee_entry 0 (ledger_ex ! 0) 1 (bank_ex ! 1))) = Some (- (3655 / 100))"
proof -
  have run: "execute_reconciliation (Inr ledger_ex) (Inr bank_ex) = Inr (report ledger_ex bank_ex)"
    by (rule execute_ex)
  have mem: "fee_entry 0 (ledger_ex ! 0) 1 (bank_ex ! 1) \<in> set (report ledger_ex bank_ex)"
    by (simp add: report_ex)
  have q: "Match_Quality (row (fee_entry 0 (ledger_ex ! 0) 1 (bank_ex ! 1))) = Partial_Match_Fee"
    by simp
  have v: "Difference (row (fee_entry 0 (ledger_ex ! 0) 1 (bank_ex ! 1))) = Some (- (3655 / 100))"
    by (simp add: fee_entry_def ledger_ex_def bank_ex_def abs_amt_def round2_def
          round_half_even_def)
  from fee_difference_rounded_and_nonpositive[OF run mem q] v show ?thesis
    by blast
qed



text \<open>
  Claim C8 says that two runs on inputs that are equal as unordered collections give the
  same outcomes in the same order. The matching is first-fit in row order: on a ledger
  row of 100.00 and two bank rows of 100.00 a day apart, the ledger row is paired with
  whichever bank row comes first, so the same bank rows in the other order give another
  report.
\<close>

theorem reordered_rows_change_report:
  "execute_reconciliation
     (Inr [\<lparr>std_date = 10, std_desc = ''Invoice'', std_amt = 100\<rparr>])
     (Inr [\<lparr>std_date = 10, std_desc = ''DEPOSIT A'', std_amt = 100\<rparr>,
           \<lparr>std_date = 11, std_desc = ''DEPOSIT B'', std_amt = 100\<rparr>])
   = Inr [exact_entry 0 \<lparr>std_date = 10, std_desc = ''Invoice'', std_amt = 100\<rparr>
                      0 \<lparr>std_date = 10, std_desc = ''DEPOSIT A'', std_amt = 100\<rparr>,
          unmatched_bank_entry 1 \<lparr>std_date = 11, std_desc = ''DEPOSIT B'', std_amt = 100\<rparr>]
   \<and> execute_reconciliation
     (Inr [\<lparr>std_date = 10, std_desc = ''Invoice'', std_amt = 100\<rparr>])
     (Inr (rev [\<lparr>std_date = 10, std_desc = ''DEPOSIT A'', std_amt = 100\<rparr>,
                \<lparr>std_date = 11, std_desc = ''DEPOSIT B'', std_amt = 100\<rparr>]))
   = Inr [exact_entry 0 \<lparr>std_date = 10, std_desc = ''Invoice'', std_amt = 100\<rparr>
                      0 \<lparr>std_date = 11, std_desc = ''DEPOSIT B'', std_amt = 100\<rparr>,
          unmatched_bank_entry 1 \<lparr>std_date = 10, std_desc = ''DEPOSIT A'', std_amt = 100\<rparr>]
   \<and> map row [exact_entry 0 \<lparr>std_date = 10, std_desc = ''Invoice'', std_amt = 100\<rparr>
                             0 \<lparr>std_date = 10, std_desc = ''DEPOSIT A'', std_amt = 100\<rparr>,
          unmatched_bank_entry 1 \<lparr>std_date = 11, std_desc = ''DEPOSIT B'', std_amt = 100\<rparr>]
     \<noteq> map row [exact_entry 0 \<lparr>std_date = 10, std_desc = ''Invoice'', std_amt = 100\<rparr>
                             0 \<lparr>std_date = 11, std_desc = ''DEPOSIT B'', std_amt = 100\<rparr>,
          unmatched_bank_entry 1 \<lparr>std_date = 10, std_desc = ''DEPOSIT A'', std_amt = 100\<rparr>]"
  by (simp add: engine_defs exact_entry_def unmatched_bank_entry_def split del: if_split)

text \<open>
  Claim C8, as amended. The report is fixed by the rows of the two inputs in their row
  order: first the exact matches in ledger row order, then the fee matches in ledger row
  order, then the bank rows that no match refers to, in bank row order, then the ledger
  rows that no match refers to, in ledger row order. A second run on the same two
  inputs, after the first has written its report, returns the same result and writes
  the same report, row for row.
\<close>

theorem report_fixed_by_row_order:
  assumes "engine_call file0 norm_ledger norm_bank = (file1, r1)"
    and "engine_call file1 norm_ledger norm_bank = (file2, r2)"
  shows "r2 = r1 \<and> file2 = file1
       \<and> (\<forall>out. execute_reconciliation norm_ledger norm_bank = Inr out \<longrightarrow>
             file1 = Some out \<and> r1 = Inr (length out))
       \<and> (\<forall>df_l df_b. norm_ledger = Inr df_l \<and> norm_bank = Inr df_b
              \<and> df_l \<noteq> [] \<and> df_b \<noteq> [] \<longrightarrow>
             (\<exists>ex fee.
                file1 = Some
                  (ex @ fee
                   @ map (\<lambda>i. unmatched_bank_entry i (df_b ! i))
                       (filter (\<lambda>i. i \<notin> set (bank_refs (ex @ fee))) [0..<length df_b])
                   @ map (\<lambda>i. unmatched_ledger_entry i (df_l ! i))
                       (filter (\<lambda>i. i \<notin> set (ledger_refs (ex @ fee))) [0..<length df_l]))
                \<and> (\<forall>e \<in> set ex. Match_Quality (row e) = Exact_Match)
                \<and> sorted_wrt (<) (ledger_refs ex)
                \<and> (\<forall>e \<in> set fee. Match_Quality (row e) = Partial_Match_Fee)
                \<and> sorted_wrt (<) (ledger_refs fee)))"
proof -
  have a: "r2 = r1 \<and> file2 = file1
       \<and> (\<forall>out. execute_reconciliation norm_ledger norm_bank = Inr out \<longrightarrow>
             file1 = Some out \<and> r1 = Inr (length out))"
    using assms by (auto simp: engine_call_def split: sum.splits)
  have b: "\<exists>ex fee.
                file1 = Some
                  (ex @ fee
                   @ map (\<lambda>i. unmatched_bank_entry i (df_b ! i))
                       (filter (\<lambda>i. i \<notin> set (bank_refs (ex @ fee))) [0..<length df_b])
                   @ map (\<lambda>i. unmatched_ledger_entry i (df_l ! i))
                       (filter (\<lambda>i. i \<notin> set (ledger_refs (ex @ fee))) [0..<length df_l]))
                \<and> (\<forall>e \<in> set ex. Match_Quality (row e) = Exact_Match)
                \<and> sorted_wrt (<) (ledger_refs ex)
                \<and> (\<forall>e \<in> set fee. Match_Quality (row e) = Partial_Match_Fee)
                \<and> sorted_wrt (<) (ledger_refs fee)"
    if "norm_ledger = Inr df_l \<and> norm_bank = Inr df_b \<and> df_l \<noteq> [] \<and> df_b \<noteq> []"
    for df_l df_b
  proof -
    from that have "execute_reconciliation norm_ledger norm_bank = Inr (report df_l df_b)"
      by (simp add: execute_reconciliation_def)
    with a have "file1 = Some (report df_l df_b)"
      by blast
    with report_order [of df_l df_b] show ?thesis
      by auto
  qed
  from a b show ?thesis
    by blast
qed

theorem report_fixed_by_row_order_witness:
  "engine_call None (Inr ledger_ex) (Inr bank_ex) = (Some (report ledger_ex bank_ex), Inr 3)
   \<and> engine_call (Some (report ledger_ex bank_ex)) (Inr ledger_ex) (Inr bank_ex)
       = (Some (report ledger_ex bank_ex), Inr 3)
   \<and> report ledger_ex bank_ex
       = [fee_entry 0 (ledger_ex ! 0) 1 (bank_ex ! 1),
          unmatched_bank_entry 0 (bank_ex ! 0),
          unmatched_ledger_entry 1 (ledger_ex ! 1)]"
proof -
  have c1: "engine_call None (Inr ledger_ex) (Inr bank_ex)
              = (Some (report ledger_ex bank_ex), Inr 3)"
    by (simp add: engine_call_def execute_ex report_ex)
  obtain f2 r2 where c2: "engine_call (Some (report ledger_ex bank_ex)) (Inr ledger_ex) (Inr bank_ex)
              = (f2, r2)"
    by (cases "engine_call (Some (report ledger_ex bank_ex)) (Inr ledger_ex) (Inr bank_ex)")
  from report_fixed_by_row_order [OF c1 c2] have "r2 = Inr 3 \<and> f2 = Some (report ledger_ex bank_ex)"
    by blast
  with c1 c2 report_ex show ?thesis
    by simp
qed

text \<open>
  Claim C9 says that a fee match carries the date, description and amount of both rows,
  as an exact match does. On the gross sale of 1250.00 and its net payout of 1213.45
  the engine emits one fee match, and that outcome has the descriptions and the amounts
  but neither \<^verbatim>\<open>Bank_Date\<close> nor \<^verbatim>\<open>Ledger_Date\<close>.
\<close>

theorem fee_outcome_lacks_dates:
  "execute_reconciliation
     (Inr [\<lparr>std_date = 10, std_desc = ''Client Invoice #1001 (Stripe)'', std_amt = 1250\<rparr>])
     (Inr [\<lparr>std_date = 12, std_desc = ''STRIPE PAYOUT TRANSFER 8823'', std_amt = 121345 / 100\<rparr>])
   = Inr [\<lparr>src_l = Some 0, src_b = Some 0,
           row = \<lparr>Match_Quality = Partial_Match_Fee,
                  Bank_Date = None, Bank_Desc = Some ''STRIPE PAYOUT TRANSFER 8823'',
                  Bank_Amt = Some (121345 / 100),
                  Ledger_Date = None, Ledger_Desc = Some ''Client Invoice #1001 (Stripe)'',
                  Ledger_Amt = Some 1250,
                  Difference = Some (- (3655 / 100))\<rparr>\<rparr>]"
  by (simp add: engine_defs fee_entry_def round2_def split del: if_split)

text \<open>
  Claim C10. A ledger row whose unsigned amount is 0 is passed over by the fee pass, and
  no Partial Match (Fee) outcome of a report refers to it. In the exact pass its
  candidates are the unclaimed bank rows, at most five days away, whose unsigned amount
  rounds to at most the double 0.01, among them every one whose unsigned amount is at
  most 0.01. When it has a candidate the pass binds it to the first of them by an Exact
  Match outcome with difference 0, and a run on such a ledger row and one bank row within
  the tolerance and the five days reports that Exact Match.
\<close>

theorem zero_amount_ledger_row:
  assumes "abs_amt row_l = 0"
  shows "fee_pass ((idx_l, row_l) # rest) df_b s = fee_pass rest df_b s
       \<and> (execute_reconciliation (Inr df_l) (Inr df_b) = Inr out
            \<and> idx_l < length df_l \<and> df_l ! idx_l = row_l \<longrightarrow>
          (\<forall>e \<in> set out. src_l e = Some idx_l \<longrightarrow>
             Match_Quality (row e) \<noteq> Partial_Match_Fee))
       \<and> (exact_candidate row_l df_b mb idx_b \<longleftrightarrow>
            idx_b < length df_b \<and> idx_b \<notin> mb
            \<and> fl (abs_amt (df_b ! idx_b)) \<le> fl (1 / 100)
            \<and> \<bar>std_date (df_b ! idx_b) - std_date row_l\<bar> \<le> 5)
       \<and> (idx_b < length df_b \<and> idx_b \<notin> mb \<and> abs_amt (df_b ! idx_b) \<le> 1 / 100
            \<and> \<bar>std_date (df_b ! idx_b) - std_date row_l\<bar> \<le> 5 \<longrightarrow>
          exact_candidate row_l df_b mb idx_b)
       \<and> (idx_l \<notin> matched_l s \<and> exact_candidate row_l df_b (matched_b s) idx_b
            \<and> (\<forall>j<idx_b. \<not> exact_candidate row_l df_b (matched_b s) j) \<longrightarrow>
          exact_pass ((idx_l, row_l) # rest) df_b s
            = exact_pass rest df_b
                (s\<lparr>matches := matches s @ [exact_entry idx_l row_l idx_b (df_b ! idx_b)],
                   matched_l := insert idx_l (matched_l s),
                   matched_b := insert idx_b (matched_b s)\<rparr>)
          \<and> Match_Quality (row (exact_entry idx_l row_l idx_b (df_b ! idx_b))) = Exact_Match
          \<and> Difference (row (exact_entry idx_l row_l idx_b (df_b ! idx_b))) = Some 0)
       \<and> (abs_amt row_b \<le> 1 / 100 \<and> \<bar>std_date row_b - std_date row_l\<bar> \<le> 5 \<longrightarrow>
          execute_reconciliation (Inr [row_l]) (Inr [row_b])
            = Inr [exact_entry 0 row_l 0 row_b])"
proof -
  have a: "fee_pass ((idx_l, row_l) # rest) df_b s = fee_pass rest df_b s"
    using assms by (simp add: fee_step_def)
  have b: "\<forall>e \<in> set out. src_l e = Some idx_l \<longrightarrow> Match_Quality (row e) \<noteq> Partial_Match_Fee"
    if run: "execute_reconciliation (Inr df_l) (Inr df_b) = Inr out"
      and il: "idx_l < length df_l" "df_l ! idx_l = row_l"
  proof (intro ballI impI notI)
    fix e
    assume e: "e \<in> set out" "src_l e = Some idx_l" "Match_Quality (row e) = Partial_Match_Fee"
    from run have "out = report df_l df_b"
      by (simp add: execute_Inr)
    with e(1,3) have "e \<in> set (matches (run_passes df_l df_b))"
      by (auto simp: report_by_index)
    then have "matched_entry df_l df_b e"
      using matched_run_passes by blast
    with e(3) obtain il ib where "e = fee_entry il (df_l ! il) ib (df_b ! ib)"
      and "0 < abs_amt (df_l ! il)"
      by (auto simp: matched_entry_def)
    with e(2) il(2) assms show False
      by simp
  qed
  have nn: "\<bar>abs_amt (df_b ! idx_b)\<bar> = abs_amt (df_b ! idx_b)" "\<bar>abs_amt row_b\<bar> = abs_amt row_b"
    by (simp_all add: abs_amt_def)
  have c: "exact_candidate row_l df_b mb idx_b \<longleftrightarrow>
            idx_b < length df_b \<and> idx_b \<notin> mb
            \<and> fl (abs_amt (df_b ! idx_b)) \<le> fl (1 / 100)
            \<and> \<bar>std_date (df_b ! idx_b) - std_date row_l\<bar> \<le> 5"
    using assms by (simp add: exact_candidate_eq isclose_zero nn within_days_def)
  have d: "idx_b < length df_b \<and> idx_b \<notin> mb \<and> abs_amt (df_b ! idx_b) \<le> 1 / 100
            \<and> \<bar>std_date (df_b ! idx_b) - std_date row_l\<bar> \<le> 5 \<longrightarrow>
          exact_candidate row_l df_b mb idx_b"
    using assms isclose_within_atol [of "abs_amt (df_b ! idx_b)" 0]
    by (simp add: exact_candidate_eq nn within_days_def)
  have e: "idx_l \<notin> matched_l s \<and> exact_candidate row_l df_b (matched_b s) idx_b
            \<and> (\<forall>j<idx_b. \<not> exact_candidate row_l df_b (matched_b s) j) \<longrightarrow>
          exact_pass ((idx_l, row_l) # rest) df_b s
            = exact_pass rest df_b
                (s\<lparr>matches := matches s @ [exact_entry idx_l row_l idx_b (df_b ! idx_b)],
                   matched_l := insert idx_l (matched_l s),
                   matched_b := insert idx_b (matched_b s)\<rparr>)"
    using exact_step_first [of idx_l s row_l df_b idx_b] by (auto simp: bind_def)
  have f: "Difference (row (exact_entry idx_l row_l idx_b (df_b ! idx_b))) = Some 0"
    by (simp add: exact_entry_def)
  have g: "abs_amt row_b \<le> 1 / 100 \<and> \<bar>std_date row_b - std_date row_l\<bar> \<le> 5 \<longrightarrow>
          execute_reconciliation (Inr [row_l]) (Inr [row_b])
            = Inr [exact_entry 0 row_l 0 row_b]"
    using assms isclose_within_atol [of "abs_amt row_b" 0]
    by (simp add: single_pair_exact nn within_days_def)
  from a b c d e f g show ?thesis
    by simp
qed

theorem zero_amount_ledger_row_witness:
  "fee_pass [(0, \<lparr>std_date = 10, std_desc = ''Void'', std_amt = 0\<rparr>)]
     [\<lparr>std_date = 12, std_desc = ''ROUNDING'', std_amt = - (1 / 100)\<rparr>] init_state = init_state
   \<and> exact_pass [(0, \<lparr>std_date = 10, std_desc = ''Void'', std_amt = 0\<rparr>)]
       [\<lparr>std_date = 12, std_desc = ''ROUNDING'', std_amt = - (1 / 100)\<rparr>] init_state
     = \<lparr>matches = [exact_entry 0 \<lparr>std_date = 10, std_desc = ''Void'', std_amt = 0\<rparr>
                                0 \<lparr>std_date = 12, std_desc = ''ROUNDING'', std_amt = - (1 / 100)\<rparr>],
        matched_l = {0}, matched_b = {0}\<rparr>
   \<and> execute_reconciliation
        (Inr [\<lparr>std_date = 10, std_desc = ''Void'', std_amt = 0\<rparr>])
        (Inr [\<lparr>std_date = 12, std_desc = ''ROUNDING'', std_amt = - (1 / 100)\<rparr>])
      = Inr [exact_entry 0 \<lparr>std_date = 10, std_desc = ''Void'', std_amt = 0\<rparr>
                         0 \<lparr>std_date = 12, std_desc = ''ROUNDING'', std_amt = - (1 / 100)\<rparr>]
   \<and> Match_Quality (row (exact_entry 0 \<lparr>std_date = 10, std_desc = ''Void'', std_amt = 0\<rparr>
                         0 \<lparr>std_date = 12, std_desc = ''ROUNDING'', std_amt = - (1 / 100)\<rparr>))
        \<noteq> Partial_Match_Fee"
proof -
  let ?l = "\<lparr>std_date = 10, std_desc = ''Void'', std_amt = 0\<rparr>"
  let ?r = "\<lparr>std_date = 12, std_desc = ''ROUNDING'', std_amt = - (1 / 100)\<rparr>"
  have z: "abs_amt ?l = 0"
    by (simp add: abs_amt_def)
  note t = zero_amount_ledger_row [OF z, of 0 "[]" "[?r]" init_state "[?l]"
      "[exact_entry 0 ?l 0 ?r]" "matched_b init_state" 0 ?r]
  from t have c1: "fee_pass [(0, ?l)] [?r] init_state = init_state"
    by simp
  from t have c: "exact_candidate ?l [?r] (matched_b init_state) 0"
    by (simp add: init_state_def abs_amt_def)
  from t c have c2: "exact_pass [(0, ?l)] [?r] init_state
      = \<lparr>matches = [exact_entry 0 ?l 0 ?r], matched_l = {0}, matched_b = {0}\<rparr>"
    by (simp add: init_state_def)
  from t have c3: "execute_reconciliation (Inr [?l]) (Inr [?r]) = Inr [exact_entry 0 ?l 0 ?r]"
    by (simp add: abs_amt_def)
  from t c3 have c4: "Match_Quality (row (exact_entry 0 ?l 0 ?r)) \<noteq> Partial_Match_Fee"
    by simp
  from c1 c2 c3 c4 show ?thesis
    by simp
qed

end
